theory Spec2Isabelle
  imports Main
begin

section \<open>Values and errors\<close>

text \<open>
  The exceptions the modelled code raises. A raise is the left injection of a result
  \<open>error + 'a\<close>.
\<close>

datatype error =
    NotImplementedError
  | ValueError string
  | RuntimeError string
  | AssertionError string
  | TypeError
  | IndexError
  | StopIteration
  | AttributeError

text \<open>
  The Python values that \<open>tuple.py\<close> walks over. \<open>Tup\<close> is an instance of the class
  \<open>Tuple\<close> (the only member of \<open>_CONTAINERS\<close>), \<open>PyList\<close> and \<open>PyTuple\<close> are the
  builtin \<open>list\<close> and \<open>tuple\<close>, and \<open>Leaf\<close> is any other object (a tensor, an array,
  a number, ...), kept opaque.
\<close>

datatype 'a val =
    Leaf 'a
  | PyList "'a val list"
  | PyTuple "'a val list"
  | Tup "'a val list"

text \<open>The three sequence classes that can occur in the \<open>types\<close> argument of \<open>tuplefy\<close>.\<close>

datatype ctype = CList | CTuple | CTup

text \<open>\<open>type(data) in types\<close>, for a list \<open>types\<close> of sequence classes.\<close>

fun type_in :: "'a val \<Rightarrow> ctype list \<Rightarrow> bool" where
  "type_in (Leaf a) types = False"
| "type_in (PyList xs) types = (CList \<in> set types)"
| "type_in (PyTuple xs) types = (CTuple \<in> set types)"
| "type_in (Tup xs) types = (CTup \<in> set types)"

text \<open>\<open>type(data) in _CONTAINERS\<close>, with \<open>_CONTAINERS = (Tuple,)\<close>.\<close>

definition CONTAINERS :: "ctype list" where
  "CONTAINERS = [CTup]"

definition in_containers :: "'a val \<Rightarrow> bool" where
  "in_containers data = type_in data CONTAINERS"

text \<open>The elements that iterating over a sequence object yields.\<close>

fun items :: "'a val \<Rightarrow> 'a val list" where
  "items (Leaf a) = []"
| "items (PyList xs) = xs"
| "items (PyTuple xs) = xs"
| "items (Tup xs) = xs"

section \<open>tuplefy\<close>

text \<open>
  \<^verbatim>\<open>
  def tuplefy(data, types=(list, tuple)):
      types = list(types)
      types.append(Tuple)
      if type(data) in types:
          return Tuple(tuplefy(sub) for sub in data)
      return data
  \<close>
  The recursive call passes no \<open>types\<close>, so below the top level the default
  \<open>(list, tuple)\<close> applies.
\<close>

definition default_types :: "ctype list" where
  "default_types = [CList, CTuple]"

fun tuplefy :: "'a val \<Rightarrow> ctype list \<Rightarrow> 'a val" where
  "tuplefy (Leaf a) types = Leaf a"
| "tuplefy (PyList xs) types =
     (if type_in (PyList xs) (types @ [CTup])
      then Tup (map (\<lambda>sub. tuplefy sub default_types) xs) else PyList xs)"
| "tuplefy (PyTuple xs) types =
     (if type_in (PyTuple xs) (types @ [CTup])
      then Tup (map (\<lambda>sub. tuplefy sub default_types) xs) else PyTuple xs)"
| "tuplefy (Tup xs) types =
     (if type_in (Tup xs) (types @ [CTup])
      then Tup (map (\<lambda>sub. tuplefy sub default_types) xs) else Tup xs)"

section \<open>is_flat and flatten_tuple\<close>

text \<open>
  \<^verbatim>\<open>
  def is_flat(data):
      if type(data) not in _CONTAINERS:
          return True
      return all(data.apply_nrec(lambda x: type(x) not in _CONTAINERS))
  \<close>
\<close>

definition is_flat :: "'a val \<Rightarrow> bool" where
  "is_flat data =
     (if \<not> in_containers data then True
      else list_all (\<lambda>x. \<not> in_containers x) (items data))"

text \<open>
  One pass of \<open>flatten_tuple\<close>: every element that is a \<open>Tuple\<close> is spliced into its
  parent, every other element is wrapped as \<open>(sub,)\<close> and so stays.
  \<^verbatim>\<open>
  new = Tuple(sub if type(sub) in _CONTAINERS else (sub,) for sub in data)
  new = Tuple(itertools.chain.from_iterable(new))
  \<close>
\<close>

definition chain_part :: "'a val \<Rightarrow> 'a val list" where
  "chain_part sub = (if in_containers sub then items sub else [sub])"

definition flatten_pass :: "'a val list \<Rightarrow> 'a val" where
  "flatten_pass xs = Tup (concat (map chain_part xs))"

text \<open>The number of \<open>Tuple\<close> nodes of a value that are not hidden inside a builtin sequence.\<close>

fun tups :: "'a val \<Rightarrow> nat" where
  "tups (Leaf a) = 0"
| "tups (PyList xs) = 0"
| "tups (PyTuple xs) = 0"
| "tups (Tup xs) = Suc (sum_list (map tups xs))"

lemma tups_chain_part:
  "sum_list (map tups (chain_part x)) = (if in_containers x then tups x - 1 else tups x)"
  by (cases x) (simp_all add: chain_part_def in_containers_def CONTAINERS_def)

lemma tups_flatten_pass_le: "tups (flatten_pass xs) \<le> tups (Tup xs)"
  unfolding flatten_pass_def
  by (induction xs) (auto simp add: tups_chain_part)

lemma tups_flatten_pass_less:
  "\<exists>x \<in> set xs. in_containers x \<Longrightarrow> tups (flatten_pass xs) < tups (Tup xs)"
  unfolding flatten_pass_def
proof (induction xs)
  case Nil
  then show ?case by simp
next
  case (Cons x xs)
  have le: "tups (flatten_pass xs) \<le> tups (Tup xs)" by (rule tups_flatten_pass_le)
  show ?case
  proof (cases "in_containers x")
    case True
    then have "0 < tups x"
      by (cases x) (simp_all add: in_containers_def CONTAINERS_def)
    with True le show ?thesis
      by (simp add: tups_chain_part flatten_pass_def)
  next
    case False
    with Cons show ?thesis
      by (simp add: tups_chain_part)
  qed
qed

lemma not_flat_pass_has_container:
  "\<not> is_flat (flatten_pass xs) \<Longrightarrow> \<exists>x \<in> set xs. in_containers x"
proof (rule ccontr)
  assume nf: "\<not> is_flat (flatten_pass xs)" and none: "\<not> (\<exists>x \<in> set xs. in_containers x)"
  from none have "concat (map chain_part xs) = xs"
    by (induction xs) (simp_all add: chain_part_def)
  with none have "is_flat (flatten_pass xs)"
    by (simp add: is_flat_def flatten_pass_def list_all_iff)
  with nf show False by simp
qed

text \<open>
  \<^verbatim>\<open>
  def flatten_tuple(data):
      if type(data) not in _CONTAINERS:
          return data
      new = Tuple(sub if type(sub) in _CONTAINERS else (sub,) for sub in data)
      new = Tuple(itertools.chain.from_iterable(new))
      if new.is_flat():
          return new
      return flatten_tuple(new)
  \<close>
\<close>

function flatten_tuple :: "'a val \<Rightarrow> 'a val" where
  "flatten_tuple data =
     (if \<not> in_containers data then data
      else (let new = flatten_pass (items data)
            in if is_flat new then new else flatten_tuple new))"
  by pat_completeness auto
termination
proof (relation "measure tups")
  show "wf (measure tups)" by simp
next
  fix data :: "'a val" and new :: "'a val"
  assume c: "\<not> \<not> in_containers data" and n: "new = flatten_pass (items data)"
    and nf: "\<not> is_flat new"
  from c obtain xs where d: "data = Tup xs"
    by (cases data) (simp_all add: in_containers_def CONTAINERS_def)
  from nf n d have "\<exists>x \<in> set xs. in_containers x"
    by (simp add: not_flat_pass_has_container)
  then have "tups (flatten_pass xs) < tups (Tup xs)"
    by (rule tups_flatten_pass_less)
  with n d show "(new, data) \<in> measure tups" by simp
qed

declare flatten_tuple.simps [simp del]

section \<open>apply_tuple\<close>

text \<open>
  Running a function that may raise over a list, left to right: the first raise ends the
  run, as it does inside \<open>Tuple(f(sub) for sub in data)\<close>.
\<close>

fun map_result :: "('a \<Rightarrow> error + 'b) \<Rightarrow> 'a list \<Rightarrow> error + 'b list" where
  "map_result f [] = Inr []"
| "map_result f (x # xs) =
     (case f x of
        Inl e \<Rightarrow> Inl e
      | Inr y \<Rightarrow> (case map_result f xs of Inl e \<Rightarrow> Inl e | Inr ys \<Rightarrow> Inr (y # ys)))"

lemma map_result_cong [fundef_cong]:
  "xs = ys \<Longrightarrow> (\<And>x. x \<in> set ys \<Longrightarrow> f x = g x) \<Longrightarrow> map_result f xs = map_result g ys"
  by (induction ys arbitrary: xs) (auto split: sum.splits)

text \<open>A \<open>for\<close> loop that rebinds an accumulator, with a body that may raise.\<close>

fun fold_result :: "('b \<Rightarrow> 'a \<Rightarrow> error + 'b) \<Rightarrow> 'a list \<Rightarrow> 'b \<Rightarrow> error + 'b" where
  "fold_result f [] acc = Inr acc"
| "fold_result f (x # xs) acc =
     (case f acc x of Inl e \<Rightarrow> Inl e | Inr acc' \<Rightarrow> fold_result f xs acc')"

text \<open>
  \<^verbatim>\<open>
  def apply_tuple(func):
      def wrapper(data, *args, **kwargs):
          if type(data) in _CONTAINERS:
              return Tuple(wrapper(sub, *args, **kwargs) for sub in data)
          return func(data, *args, **kwargs)
      return wrapper
  \<close>
  \<open>func\<close> receives every value that is not a \<open>Tuple\<close>, builtin sequences included, and
  may return a value over other leaves.
\<close>

fun apply_tuple :: "('a val \<Rightarrow> error + 'b val) \<Rightarrow> 'a val \<Rightarrow> error + 'b val" where
  "apply_tuple func (Tup xs) =
     (case map_result (apply_tuple func) xs of Inl e \<Rightarrow> Inl e | Inr ys \<Rightarrow> Inr (Tup ys))"
| "apply_tuple func (Leaf a) = func (Leaf a)"
| "apply_tuple func (PyList xs) = func (PyList xs)"
| "apply_tuple func (PyTuple xs) = func (PyTuple xs)"

text \<open>
  The methods \<open>apply\<close> and \<open>apply_nrec\<close> exist on \<open>Tuple\<close> only; on any other receiver the
  attribute lookup fails.
  \<^verbatim>\<open>
  def apply(self, func):
      return apply_tuple(func)(self)
  def apply_nrec(self, func):
      return Tuple(func(sub) for sub in self)
  \<close>
\<close>

definition Tuple_apply :: "'a val \<Rightarrow> ('a val \<Rightarrow> error + 'b val) \<Rightarrow> error + 'b val" where
  "Tuple_apply self func =
     (if in_containers self then apply_tuple func self else Inl AttributeError)"

definition apply_nrec :: "'a val \<Rightarrow> ('a val \<Rightarrow> error + 'b val) \<Rightarrow> error + 'b val" where
  "apply_nrec self func =
     (if in_containers self
      then (case map_result func (items self) of Inl e \<Rightarrow> Inl e | Inr ys \<Rightarrow> Inr (Tup ys))
      else Inl AttributeError)"

section \<open>Topology: tuple_levels and all_equal\<close>

text \<open>
  \<^verbatim>\<open>
  def tuple_levels(data, level=-1):
      if type(data) not in _CONTAINERS:
          return level
      return Tuple(tuple_levels(sub, level+1) for sub in data)
  \<close>
\<close>

fun tuple_levels :: "'a val \<Rightarrow> int \<Rightarrow> int val" where
  "tuple_levels (Tup xs) level = Tup (map (\<lambda>sub. tuple_levels sub (level + 1)) xs)"
| "tuple_levels (Leaf a) level = Leaf level"
| "tuple_levels (PyList xs) level = Leaf level"
| "tuple_levels (PyTuple xs) level = Leaf level"

definition to_levels :: "'a val \<Rightarrow> int val" where
  "to_levels self = tuple_levels self (- 1)"

text \<open>
  Python's \<open>==\<close> on these values, for leaves whose own \<open>==\<close> is an equality test (numbers,
  shapes, types). \<open>Tuple\<close> inherits \<open>tuple.__eq__\<close>, so a \<open>Tuple\<close> and a builtin tuple with
  equal elements are equal; a list equals only a list.
\<close>

function py_eq :: "'a val \<Rightarrow> 'a val \<Rightarrow> bool" where
  "py_eq (Leaf a) y = (case y of Leaf b \<Rightarrow> a = b | _ \<Rightarrow> False)"
| "py_eq (PyList xs) y =
     (case y of PyList ys \<Rightarrow> length xs = length ys \<and> list_all (\<lambda>(a, b). py_eq a b) (zip xs ys)
              | _ \<Rightarrow> False)"
| "py_eq (PyTuple xs) y =
     (case y of PyTuple ys \<Rightarrow> length xs = length ys \<and> list_all (\<lambda>(a, b). py_eq a b) (zip xs ys)
              | Tup ys \<Rightarrow> length xs = length ys \<and> list_all (\<lambda>(a, b). py_eq a b) (zip xs ys)
              | _ \<Rightarrow> False)"
| "py_eq (Tup xs) y =
     (case y of PyTuple ys \<Rightarrow> length xs = length ys \<and> list_all (\<lambda>(a, b). py_eq a b) (zip xs ys)
              | Tup ys \<Rightarrow> length xs = length ys \<and> list_all (\<lambda>(a, b). py_eq a b) (zip xs ys)
              | _ \<Rightarrow> False)"
  by pat_completeness auto
termination
  by (relation "measure (\<lambda>(x, y). size x)")
     (auto dest!: set_zip_leftD simp: less_Suc_eq_le size_list_estimation')

text \<open>The truth value of an element of a flat \<open>Tuple\<close> of comparison results.\<close>

fun truthy :: "bool val \<Rightarrow> bool" where
  "truthy (Leaf b) = b"
| "truthy (PyList xs) = (xs \<noteq> [])"
| "truthy (PyTuple xs) = (xs \<noteq> [])"
| "truthy (Tup xs) = (xs \<noteq> [])"

text \<open>
  \<^verbatim>\<open>
  def all(self):
      if not self.is_flat():
          raise RuntimeError("Need to have a flat structure to use 'all'")
      return all(self)
  \<close>
\<close>

definition need_flat_msg :: string where
  "need_flat_msg = ''Need to have a flat structure to use '' @ [CHR 0x27] @ ''all'' @ [CHR 0x27]"

definition Tuple_all :: "bool val \<Rightarrow> error + bool" where
  "Tuple_all self =
     (if \<not> is_flat self then Inl (RuntimeError need_flat_msg)
      else Inr (list_all truthy (items self)))"

text \<open>
  \<^verbatim>\<open>
  def all_equal(data):
      return data.apply_nrec(lambda x: x == data[0]).all()
  \<close>
  The lambda runs once per element, so \<open>data[0]\<close> is read only when there is one.
\<close>

definition all_equal :: "'a val \<Rightarrow> error + bool" where
  "all_equal data =
     (case apply_nrec data
             (\<lambda>x. case items data of [] \<Rightarrow> Inl IndexError
                                   | d0 # _ \<Rightarrow> Inr (Leaf (py_eq x d0))) of
        Inl e \<Rightarrow> Inl e
      | Inr bs \<Rightarrow> Tuple_all bs)"

section \<open>reduce_tuple\<close>

text \<open>
  What \<open>zip\<close> gets when it iterates over a value. A builtin sequence or a \<open>Tuple\<close> yields
  its elements; for an opaque leaf the parameter \<open>it\<close> tells (\<open>None\<close>: the object is not
  iterable, and the call raises a TypeError).
\<close>

fun py_iter :: "('a \<Rightarrow> 'a val list option) \<Rightarrow> 'a val \<Rightarrow> error + 'a val list" where
  "py_iter it (Leaf a) = (case it a of None \<Rightarrow> Inl TypeError | Some xs \<Rightarrow> Inr xs)"
| "py_iter it (PyList xs) = Inr xs"
| "py_iter it (PyTuple xs) = Inr xs"
| "py_iter it (Tup xs) = Inr xs"

text \<open>
  \<^verbatim>\<open>
  def reduce_rec(acc_val, val, **kwargs):
      if type(acc_val) in _CONTAINERS:
          return Tuple(reduce_rec(av, v) for av, v in zip(acc_val, val))
      return func(acc_val, val, **kwargs)
  \<close>
  Keyword arguments are not modelled.
\<close>

function reduce_rec ::
  "('a \<Rightarrow> 'a val list option) \<Rightarrow> ('a val \<Rightarrow> 'a val \<Rightarrow> error + 'a val) \<Rightarrow>
   'a val \<Rightarrow> 'a val \<Rightarrow> error + 'a val" where
  "reduce_rec it func (Tup avs) val =
     (case py_iter it val of
        Inl e \<Rightarrow> Inl e
      | Inr vs \<Rightarrow>
          (case map_result (\<lambda>(av, v). reduce_rec it func av v) (zip avs vs) of
             Inl e \<Rightarrow> Inl e
           | Inr rs \<Rightarrow> Inr (Tup rs)))"
| "reduce_rec it func (Leaf a) val = func (Leaf a) val"
| "reduce_rec it func (PyList xs) val = func (PyList xs) val"
| "reduce_rec it func (PyTuple xs) val = func (PyTuple xs) val"
  by pat_completeness auto
termination
  by (relation "measure (\<lambda>(it, func, acc, val). size acc)")
     (auto dest!: set_zip_leftD simp: less_Suc_eq_le size_list_estimation')

text \<open>
  \<^verbatim>\<open>
  def wrapper(data, **kwargs):
      if not data.to_levels().all_equal():
          raise ValueError("Topology is not the same for all elements in data, and can not be reduced")
      iterable = iter(data)
      if init_func is None:
          acc_val = next(iterable)
      else:
          acc_val = data[0].apply(init_func)
      for val in iterable:
          acc_val = reduce_rec(acc_val, val, **kwargs)
      return acc_val
  \<close>
  \<open>to_levels\<close> is a method of \<open>Tuple\<close>, so any other \<open>data\<close> fails at the attribute lookup.
  The iterator is advanced past the first element only in the branch without \<open>init_func\<close>.
\<close>

definition topology_msg :: string where
  "topology_msg =
     ''Topology is not the same for all elements in data, and can not be reduced''"

definition reduce_tuple ::
  "('a \<Rightarrow> 'a val list option) \<Rightarrow> ('a val \<Rightarrow> 'a val \<Rightarrow> error + 'a val) \<Rightarrow>
   ('a val \<Rightarrow> error + 'a val) option \<Rightarrow> 'a val \<Rightarrow> error + 'a val" where
  "reduce_tuple it func init_func data =
     (if \<not> in_containers data then Inl AttributeError
      else case all_equal (to_levels data) of
        Inl e \<Rightarrow> Inl e
      | Inr same \<Rightarrow>
          if \<not> same then Inl (ValueError topology_msg)
          else (case init_func of
                  None \<Rightarrow>
                    (case items data of
                       [] \<Rightarrow> Inl StopIteration
                     | first # rest \<Rightarrow> fold_result (reduce_rec it func) rest first)
                | Some init \<Rightarrow>
                    (case items data of
                       [] \<Rightarrow> Inl IndexError
                     | first # rest \<Rightarrow>
                         (case Tuple_apply first init of
                            Inl e \<Rightarrow> Inl e
                          | Inr acc_val \<Rightarrow>
                              fold_result (reduce_rec it func) (first # rest) acc_val))))"

section \<open>agg_list and split_agg\<close>

text \<open>
  \<^verbatim>\<open>
  def agg_list(data):
      init_func = lambda _: list()
      def append_func(list_, val):
          list_.append(val)
          return list_
      return reduce_tuple(append_func, init_func)(data)
  \<close>
  Every leaf position gets a list of its own from \<open>init_func\<close>, so the in-place
  \<open>append\<close> is the pure extension of that list. Only a list has \<open>append\<close>.
\<close>

definition init_func_list :: "'a val \<Rightarrow> error + 'a val" where
  "init_func_list x = Inr (PyList [])"

fun append_func :: "'a val \<Rightarrow> 'a val \<Rightarrow> error + 'a val" where
  "append_func (PyList l) v = Inr (PyList (l @ [v]))"
| "append_func (Leaf a) v = Inl AttributeError"
| "append_func (PyTuple xs) v = Inl AttributeError"
| "append_func (Tup xs) v = Inl AttributeError"

definition agg_list :: "('a \<Rightarrow> 'a val list option) \<Rightarrow> 'a val \<Rightarrow> error + 'a val" where
  "agg_list it data = reduce_tuple it append_func (Some init_func_list) data"

text \<open>
  \<open>zip(*new)\<close> on the element lists of its arguments: the rows, as long as the shortest
  argument; no rows at all for no argument.
\<close>

fun py_zip :: "'a list list \<Rightarrow> 'a list list" where
  "py_zip [] = []"
| "py_zip [xs] = map (\<lambda>x. [x]) xs"
| "py_zip (xs # ys # yss) = map (\<lambda>(x, row). x # row) (zip xs (py_zip (ys # yss)))"

text \<open>
  \<^verbatim>\<open>
  def split_agg(agg):
      if type(agg) is Tuple:
          new = agg.apply_nrec(split_agg)
          return Tuple(zip(*new)).tuplefy()
      return agg
  \<close>
  \<open>zip\<close> yields builtin tuples; \<open>tuplefy\<close> then turns every builtin list and tuple below
  them into a \<open>Tuple\<close> as well.
\<close>

fun split_agg :: "('a \<Rightarrow> 'a val list option) \<Rightarrow> 'a val \<Rightarrow> error + 'a val" where
  "split_agg it (Tup xs) =
     (case map_result (split_agg it) xs of
        Inl e \<Rightarrow> Inl e
      | Inr new \<Rightarrow>
          (case map_result (py_iter it) new of
             Inl e \<Rightarrow> Inl e
           | Inr cols \<Rightarrow> Inr (tuplefy (Tup (map PyTuple (py_zip cols))) default_types)))"
| "split_agg it (Leaf a) = Inr (Leaf a)"
| "split_agg it (PyList xs) = Inr (PyList xs)"
| "split_agg it (PyTuple xs) = Inr (PyTuple xs)"

section \<open>Topology, as the specification words it\<close>

text \<open>
  The nesting structure of a value: the arity of every \<open>Tuple\<close> node, recursively, with
  the leaf values forgotten. Two values have the same topology when these are equal. A
  builtin sequence is a leaf here, as it is for \<open>_CONTAINERS\<close>.
\<close>

datatype topology = LeafT | NodeT "topology list"

fun topology_of :: "'a val \<Rightarrow> topology" where
  "topology_of (Tup xs) = NodeT (map topology_of xs)"
| "topology_of (Leaf a) = LeafT"
| "topology_of (PyList xs) = LeafT"
| "topology_of (PyTuple xs) = LeafT"

text \<open>All top-level elements have the topology of the first one.\<close>

fun same_topologies :: "'a val list \<Rightarrow> bool" where
  "same_topologies [] = True"
| "same_topologies (x # xs) = list_all (\<lambda>y. topology_of y = topology_of x) (x # xs)"

text \<open>
  A value built from \<open>Tuple\<close> nodes and opaque leaves only (the nested container of the
  data model, and its leaves), and a value without an empty \<open>Tuple\<close> at any depth.
\<close>

fun plain :: "'a val \<Rightarrow> bool" where
  "plain (Leaf a) = True"
| "plain (PyList xs) = False"
| "plain (PyTuple xs) = False"
| "plain (Tup xs) = list_all plain xs"

fun no_empty :: "'a val \<Rightarrow> bool" where
  "no_empty (Tup xs) = (xs \<noteq> [] \<and> list_all no_empty xs)"
| "no_empty (Leaf a) = True"
| "no_empty (PyList xs) = True"
| "no_empty (PyTuple xs) = True"

definition container_seq :: "'a val list \<Rightarrow> bool" where
  "container_seq xs = list_all (\<lambda>x. in_containers x \<and> plain x) xs"

text \<open>\<open>split_agg(agg_list(data))\<close>.\<close>

definition agg_then_split :: "('a \<Rightarrow> 'a val list option) \<Rightarrow> 'a val \<Rightarrow> error + 'a val" where
  "agg_then_split it data =
     (case agg_list it data of Inl e \<Rightarrow> Inl e | Inr agg \<Rightarrow> split_agg it agg)"

text \<open>
  What \<open>agg_list\<close> builds, written as a function of the first element \<open>x\<close> (for the
  topology) and the list \<open>vs\<close> of elements aggregated so far: at every leaf position the
  list of the values found there. \<open>column i vs\<close> is the list of the \<open>i\<close>-th children;
  it is used only where every element of \<open>vs\<close> has an \<open>i\<close>-th child.
\<close>

definition column :: "nat \<Rightarrow> 'a val list \<Rightarrow> 'a val list" where
  "column i vs = map (\<lambda>v. items v ! i) vs"

function agg_spec :: "'a val \<Rightarrow> 'a val list \<Rightarrow> 'a val" where
  "agg_spec (Tup cs) vs =
     Tup (map (\<lambda>(i, c). agg_spec c (column i vs)) (zip [0..<length cs] cs))"
| "agg_spec (Leaf a) vs = PyList vs"
| "agg_spec (PyList xs) vs = PyList vs"
| "agg_spec (PyTuple xs) vs = PyList vs"
  by pat_completeness auto
termination
  by (relation "measure (\<lambda>(x, vs). size x)")
     (auto dest!: set_zip_rightD simp: less_Suc_eq_le size_list_estimation')

text \<open>
  Example arguments: number leaves, which cannot be iterated, the reducer
  \<open>lambda x, y: x+y\<close> of the docstring of \<open>reduce_tuple\<close> on numbers, a reducer that
  raises on every call, and two seeds.
\<close>

definition not_iterable :: "int \<Rightarrow> int val list option" where
  "not_iterable a = None"

fun add_func :: "int val \<Rightarrow> int val \<Rightarrow> error + int val" where
  "add_func (Leaf x) (Leaf y) = Inr (Leaf (x + y))"
| "add_func (Leaf x) (PyList ys) = Inl TypeError"
| "add_func (Leaf x) (PyTuple ys) = Inl TypeError"
| "add_func (Leaf x) (Tup ys) = Inl TypeError"
| "add_func (PyList xs) y = Inl TypeError"
| "add_func (PyTuple xs) y = Inl TypeError"
| "add_func (Tup xs) y = Inl TypeError"

definition raising_func :: "int val \<Rightarrow> int val \<Rightarrow> error + int val" where
  "raising_func x y = Inl TypeError"

definition zero_init :: "int val \<Rightarrow> error + int val" where
  "zero_init x = Inr (Leaf 0)"

definition ten_init :: "int val \<Rightarrow> error + int val" where
  "ten_init x = Inr (Leaf 10)"

definition zero_leaf :: "int \<Rightarrow> int" where
  "zero_leaf a = 0"

text \<open>
  A reducer and a seed function that act on the opaque leaves only, \<open>func\<close> as
  \<open>lambda a, b: f(a, b)\<close> and \<open>init_func\<close> as \<open>lambda a: g(a)\<close> for operations \<open>f\<close> and
  \<open>g\<close> of the leaves; on a sequence they raise a TypeError.
\<close>

fun lift1 :: "('a \<Rightarrow> 'a) \<Rightarrow> 'a val \<Rightarrow> error + 'a val" where
  "lift1 g (Leaf a) = Inr (Leaf (g a))"
| "lift1 g (PyList xs) = Inl TypeError"
| "lift1 g (PyTuple xs) = Inl TypeError"
| "lift1 g (Tup xs) = Inl TypeError"

fun lift2 :: "('a \<Rightarrow> 'a \<Rightarrow> 'a) \<Rightarrow> 'a val \<Rightarrow> 'a val \<Rightarrow> error + 'a val" where
  "lift2 f (Leaf a) (Leaf b) = Inr (Leaf (f a b))"
| "lift2 f (Leaf a) (PyList ys) = Inl TypeError"
| "lift2 f (Leaf a) (PyTuple ys) = Inl TypeError"
| "lift2 f (Leaf a) (Tup ys) = Inl TypeError"
| "lift2 f (PyList xs) y = Inl TypeError"
| "lift2 f (PyTuple xs) y = Inl TypeError"
| "lift2 f (Tup xs) y = Inl TypeError"

text \<open>
  The reduction in the words of the specification, for such operations: \<open>map_leaves g\<close>
  applies \<open>g\<close> to every leaf of a container, and \<open>combine f acc v\<close> is the container of
  the topology of \<open>acc\<close> that holds \<open>f a b\<close> at every leaf position, for the leaves \<open>a\<close>
  of \<open>acc\<close> and \<open>b\<close> of \<open>v\<close> at that position. Folding \<open>func\<close> over elements is
  \<open>foldl (combine f)\<close> from the seed.
\<close>

fun map_leaves :: "('a \<Rightarrow> 'a) \<Rightarrow> 'a val \<Rightarrow> 'a val" where
  "map_leaves g (Leaf a) = Leaf (g a)"
| "map_leaves g (Tup xs) = Tup (map (map_leaves g) xs)"
| "map_leaves g (PyList xs) = PyList xs"
| "map_leaves g (PyTuple xs) = PyTuple xs"

function combine :: "('a \<Rightarrow> 'a \<Rightarrow> 'a) \<Rightarrow> 'a val \<Rightarrow> 'a val \<Rightarrow> 'a val" where
  "combine f (Leaf a) v = (case v of Leaf b \<Rightarrow> Leaf (f a b) | _ \<Rightarrow> Leaf a)"
| "combine f (Tup xs) v = Tup (map (\<lambda>(x, y). combine f x y) (zip xs (items v)))"
| "combine f (PyList xs) v = PyList xs"
| "combine f (PyTuple xs) v = PyTuple xs"
  by pat_completeness auto
termination
  by (relation "measure (\<lambda>(f, x, v). size x)")
     (auto dest!: set_zip_leftD simp: less_Suc_eq_le size_list_estimation')

section \<open>Leaves that are tensors or arrays: astype and cat\<close>

text \<open>
  The objects at the leaves, by class: a \<open>torch.Tensor\<close>, a \<open>numpy.ndarray\<close>, an
  object of any other class (with the name of the class), an exception instance, or an
  object of another class that has a \<open>shape\<close> attribute all the same (a
  \<open>torch.nn.Parameter\<close>, say), with the name of its class and its shape.
\<close>

datatype ('t, 'n) obj =
    TorchTensor 't
  | NdArray 'n
  | OtherObj string
  | ExcObj error
  | ShapedObj string "nat list"

text \<open>The class of a value, as \<open>type(data)\<close> returns it, and its \<open>repr\<close>.\<close>

datatype pytype = TensorType | NdarrayType | ListType | TupleType | TupType | ClassType string

fun error_class :: "error \<Rightarrow> string" where
  "error_class NotImplementedError = ''NotImplementedError''"
| "error_class (ValueError m) = ''ValueError''"
| "error_class (RuntimeError m) = ''RuntimeError''"
| "error_class (AssertionError m) = ''AssertionError''"
| "error_class TypeError = ''TypeError''"
| "error_class IndexError = ''IndexError''"
| "error_class StopIteration = ''StopIteration''"
| "error_class AttributeError = ''AttributeError''"

fun py_type :: "('t, 'n) obj val \<Rightarrow> pytype" where
  "py_type (Leaf (TorchTensor t)) = TensorType"
| "py_type (Leaf (NdArray n)) = NdarrayType"
| "py_type (Leaf (OtherObj c)) = ClassType c"
| "py_type (Leaf (ExcObj e)) = ClassType (error_class e)"
| "py_type (Leaf (ShapedObj c sh)) = ClassType c"
| "py_type (PyList xs) = ListType"
| "py_type (PyTuple xs) = TupleType"
| "py_type (Tup xs) = TupType"

definition quoted :: "string \<Rightarrow> string" where
  "quoted s = [CHR 0x27] @ s @ [CHR 0x27]"

fun type_repr :: "pytype \<Rightarrow> string" where
  "type_repr TensorType = ''<class '' @ quoted ''torch.Tensor'' @ ''>''"
| "type_repr NdarrayType = ''<class '' @ quoted ''numpy.ndarray'' @ ''>''"
| "type_repr ListType = ''<class '' @ quoted ''list'' @ ''>''"
| "type_repr TupleType = ''<class '' @ quoted ''tuple'' @ ''>''"
| "type_repr TupType = ''<class '' @ quoted ''pyth.tuple.Tuple'' @ ''>''"
| "type_repr (ClassType c) = ''<class '' @ quoted c @ ''>''"

text \<open>
  The operations of the tensor and array libraries that \<open>tuple.py\<close> calls, as
  parameters: \<open>Tensor.type(dtype)\<close>, \<open>ndarray.astype(dtype)\<close>, \<open>.shape\<close>, \<open>torch.cat\<close>,
  \<open>np.concatenate\<close>, and what iterating over a leaf object yields. Extra positional and
  keyword arguments are not modelled.
\<close>

record ('t, 'n, 'd) lib =
  tensor_type :: "'t \<Rightarrow> 'd \<Rightarrow> error + 't"
  ndarray_astype :: "'n \<Rightarrow> 'd \<Rightarrow> error + 'n"
  tensor_shape :: "'t \<Rightarrow> nat list"
  ndarray_shape :: "'n \<Rightarrow> nat list"
  torch_cat :: "'t list \<Rightarrow> error + 't"
  np_concatenate :: "'n list \<Rightarrow> error + 'n"
  obj_iter :: "('t, 'n) obj \<Rightarrow> ('t, 'n) obj val list option"

text \<open>
  \<^verbatim>\<open>
  @apply_tuple
  def astype(data, dtype, *args, **kwargs):
      if type(data) is torch.Tensor:
          return data.type(dtype, *args, **kwargs)
      elif type(data) is np.ndarray:
          return data.astype(dtype, *args, **kwargs)
      else:
          return RuntimeError(
              f"""Need 'data' to be torch.tensor of np.ndarray, found {type(data)}.
              """)
  \<close>
  The last branch returns the exception instance; it does not raise it.
\<close>

definition astype_msg :: "pytype \<Rightarrow> string" where
  "astype_msg ty =
     ''Need '' @ quoted ''data'' @ '' to be torch.tensor of np.ndarray, found '' @
     type_repr ty @ ''.'' @ [CHR 0x0A] @ ''            ''"

definition astype_leaf ::
  "('t, 'n, 'd) lib \<Rightarrow> 'd \<Rightarrow> ('t, 'n) obj val \<Rightarrow> error + ('t, 'n) obj val" where
  "astype_leaf L dtype data =
     (case data of
        Leaf (TorchTensor t) \<Rightarrow>
          (case tensor_type L t dtype of
             Inl e \<Rightarrow> Inl e
           | Inr t' \<Rightarrow> Inr (Leaf (TorchTensor t')))
      | Leaf (NdArray n) \<Rightarrow>
          (case ndarray_astype L n dtype of
             Inl e \<Rightarrow> Inl e
           | Inr n' \<Rightarrow> Inr (Leaf (NdArray n')))
      | _ \<Rightarrow> Inr (Leaf (ExcObj (RuntimeError (astype_msg (py_type data))))))"

definition astype ::
  "('t, 'n, 'd) lib \<Rightarrow> ('t, 'n) obj val \<Rightarrow> 'd \<Rightarrow> error + ('t, 'n) obj val" where
  "astype L data dtype = apply_tuple (astype_leaf L dtype) data"

text \<open>
  \<^verbatim>\<open>
  @apply_tuple
  def shapes_of(data):
      return data.shape
  @apply_tuple
  def types_of(data):
      return type(data)
  \<close>
  A tensor, an array and an object of a class with that attribute have a \<open>shape\<close>; on
  any other value the attribute lookup fails. A shape is a leaf of the result.
\<close>

fun shape_leaf :: "('t, 'n, 'd) lib \<Rightarrow> ('t, 'n) obj val \<Rightarrow> error + nat list val" where
  "shape_leaf L (Leaf (TorchTensor t)) = Inr (Leaf (tensor_shape L t))"
| "shape_leaf L (Leaf (NdArray n)) = Inr (Leaf (ndarray_shape L n))"
| "shape_leaf L (Leaf (OtherObj c)) = Inl AttributeError"
| "shape_leaf L (Leaf (ExcObj e)) = Inl AttributeError"
| "shape_leaf L (Leaf (ShapedObj c sh)) = Inr (Leaf sh)"
| "shape_leaf L (PyList xs) = Inl AttributeError"
| "shape_leaf L (PyTuple xs) = Inl AttributeError"
| "shape_leaf L (Tup xs) = Inl AttributeError"

definition shapes_of :: "('t, 'n, 'd) lib \<Rightarrow> ('t, 'n) obj val \<Rightarrow> error + nat list val" where
  "shapes_of L data = apply_tuple (shape_leaf L) data"

definition types_of :: "('t, 'n) obj val \<Rightarrow> error + pytype val" where
  "types_of data = apply_tuple (\<lambda>x. Inr (Leaf (py_type x))) data"

text \<open>\<open>lambda x: x[1:]\<close>, on a shape or a builtin sequence.\<close>

fun drop_first :: "nat list val \<Rightarrow> error + nat list val" where
  "drop_first (Leaf s) = Inr (Leaf (drop 1 s))"
| "drop_first (PyList xs) = Inr (PyList (drop 1 xs))"
| "drop_first (PyTuple xs) = Inr (PyTuple (drop 1 xs))"
| "drop_first (Tup xs) = Inr (Tup (drop 1 xs))"

text \<open>
  \<^verbatim>\<open>
  def type_of(data):
      types = data.types().flatten()
      if types.count(types[0]) != len(types):
          raise ValueError("All objects in 'data' doest have the same type.")
      return types[0]
  \<close>
\<close>

definition type_of_msg :: string where
  "type_of_msg = ''All objects in '' @ quoted ''data'' @ '' doest have the same type.''"

definition type_of :: "('t, 'n) obj val \<Rightarrow> error + pytype val" where
  "type_of data =
     (if \<not> in_containers data then Inl AttributeError
      else case types_of data of
        Inl e \<Rightarrow> Inl e
      | Inr tys \<Rightarrow>
          (let types = items (flatten_tuple tys)
           in case types of
                [] \<Rightarrow> Inl IndexError
              | t0 # rest \<Rightarrow>
                  if length (filter (\<lambda>t. py_eq t t0) types) \<noteq> length types
                  then Inl (ValueError type_of_msg)
                  else Inr t0))"

text \<open>
  \<open>torch.cat\<close> and \<open>np.concatenate\<close> on a leaf of the aggregated value: a list whose
  elements are all tensors (all arrays).
\<close>

fun tensors_of :: "('t, 'n) obj val list \<Rightarrow> error + 't list" where
  "tensors_of [] = Inr []"
| "tensors_of (Leaf (TorchTensor t) # xs) =
     (case tensors_of xs of Inl e \<Rightarrow> Inl e | Inr ts \<Rightarrow> Inr (t # ts))"
| "tensors_of (x # xs) = Inl TypeError"

fun arrays_of :: "('t, 'n) obj val list \<Rightarrow> error + 'n list" where
  "arrays_of [] = Inr []"
| "arrays_of (Leaf (NdArray n) # xs) =
     (case arrays_of xs of Inl e \<Rightarrow> Inl e | Inr ns \<Rightarrow> Inr (n # ns))"
| "arrays_of (x # xs) = Inl TypeError"

fun torch_cat_leaf :: "('t, 'n, 'd) lib \<Rightarrow> ('t, 'n) obj val \<Rightarrow> error + ('t, 'n) obj val" where
  "torch_cat_leaf L (PyList xs) =
     (case tensors_of xs of
        Inl e \<Rightarrow> Inl e
      | Inr ts \<Rightarrow> (case torch_cat L ts of Inl e \<Rightarrow> Inl e | Inr t \<Rightarrow> Inr (Leaf (TorchTensor t))))"
| "torch_cat_leaf L (PyTuple xs) =
     (case tensors_of xs of
        Inl e \<Rightarrow> Inl e
      | Inr ts \<Rightarrow> (case torch_cat L ts of Inl e \<Rightarrow> Inl e | Inr t \<Rightarrow> Inr (Leaf (TorchTensor t))))"
| "torch_cat_leaf L (Leaf a) = Inl TypeError"
| "torch_cat_leaf L (Tup xs) = Inl TypeError"

fun np_concatenate_leaf ::
  "('t, 'n, 'd) lib \<Rightarrow> ('t, 'n) obj val \<Rightarrow> error + ('t, 'n) obj val" where
  "np_concatenate_leaf L (PyList xs) =
     (case arrays_of xs of
        Inl e \<Rightarrow> Inl e
      | Inr ns \<Rightarrow> (case np_concatenate L ns of Inl e \<Rightarrow> Inl e | Inr n \<Rightarrow> Inr (Leaf (NdArray n))))"
| "np_concatenate_leaf L (PyTuple xs) =
     (case arrays_of xs of
        Inl e \<Rightarrow> Inl e
      | Inr ns \<Rightarrow> (case np_concatenate L ns of Inl e \<Rightarrow> Inl e | Inr n \<Rightarrow> Inr (Leaf (NdArray n))))"
| "np_concatenate_leaf L (Leaf a) = Inl TypeError"
| "np_concatenate_leaf L (Tup xs) = Inl TypeError"

text \<open>
  \<^verbatim>\<open>
  def cat(seq, dim=0):
      if dim != 0:
          raise NotImplementedError
      if not seq.shapes().apply(lambda x: x[1:]).all_equal():
          raise ValueError("Shapes of merged arrays need to be the same")
      type_ = seq.type()
      agg = seq.agg_list()
      if type_ is torch.Tensor:
          return agg.apply(torch.cat)
      elif type_ is np.ndarray:
          return agg.apply(np.concatenate)
      raise RuntimeError(f"Need type to be np.ndarray or torch.Tensor, fournd {type_}.")
  \<close>
\<close>

definition shapes_msg :: string where
  "shapes_msg = ''Shapes of merged arrays need to be the same''"

fun cat_msg :: "pytype val \<Rightarrow> string" where
  "cat_msg (Leaf ty) =
     ''Need type to be np.ndarray or torch.Tensor, fournd '' @ type_repr ty @ ''.''"
| "cat_msg v = ''Need type to be np.ndarray or torch.Tensor, fournd .''"

definition cat ::
  "('t, 'n, 'd) lib \<Rightarrow> ('t, 'n) obj val \<Rightarrow> int \<Rightarrow> error + ('t, 'n) obj val" where
  "cat L seq dim =
     (if dim \<noteq> 0 then Inl NotImplementedError
      else if \<not> in_containers seq then Inl AttributeError
      else case shapes_of L seq of
        Inl e \<Rightarrow> Inl e
      | Inr shapes \<Rightarrow>
     (case Tuple_apply shapes drop_first of
        Inl e \<Rightarrow> Inl e
      | Inr tails \<Rightarrow>
     (case all_equal tails of
        Inl e \<Rightarrow> Inl e
      | Inr same \<Rightarrow>
          if \<not> same then Inl (ValueError shapes_msg)
          else
     (case type_of seq of
        Inl e \<Rightarrow> Inl e
      | Inr type_ \<Rightarrow>
     (case agg_list (obj_iter L) seq of
        Inl e \<Rightarrow> Inl e
      | Inr agg \<Rightarrow>
          if type_ = Leaf TensorType then Tuple_apply agg (torch_cat_leaf L)
          else if type_ = Leaf NdarrayType then Tuple_apply agg (np_concatenate_leaf L)
          else Inl (RuntimeError (cat_msg type_)))))))"

text \<open>
  The method of the class \<open>Tuple\<close>. It passes the literal \<open>0\<close> on, not its argument:
  \<^verbatim>\<open>
  def cat(self, dim=0):
      return cat(self, dim=0)
  \<close>
  Its sibling \<open>split\<close> passes \<open>dim\<close>:
  \<open>def split(self, split_size, dim=0): return split(self, split_size, dim)\<close>.
\<close>

definition Tuple_cat ::
  "('t, 'n, 'd) lib \<Rightarrow> ('t, 'n) obj val \<Rightarrow> int \<Rightarrow> error + ('t, 'n) obj val" where
  "Tuple_cat L self dim = cat L self 0"

text \<open>
  An example library for concrete runs: a tensor or an array is the list of the numbers
  of a one-dimensional array, a conversion keeps them, concatenation appends them.
\<close>

definition list_lib :: "(int list, int list, string) lib" where
  "list_lib =
     \<lparr> tensor_type = (\<lambda>t d. Inr t),
       ndarray_astype = (\<lambda>n d. Inr n),
       tensor_shape = (\<lambda>t. [length t]),
       ndarray_shape = (\<lambda>n. [length n]),
       torch_cat = (\<lambda>ts. Inr (concat ts)),
       np_concatenate = (\<lambda>ns. Inr (concat ns)),
       obj_iter = (\<lambda>x. None) \<rparr>"

section \<open>The training loop of Model\<close>

text \<open>
  The entries of the callback registry. \<open>TrainLossMonitor\<close> is the object
  \<open>self.train_loss\<close> (a \<open>MonitorTrainLoss\<close>, the monitor of the training-data loss) and
  \<open>Logger\<close> is \<open>self.log\<close> (a \<open>TrainingLogger\<close>), both made by \<open>Model.__init__\<close>;
  \<open>UserCallback\<close> is a callback passed to \<open>fit\<close>. \<open>OptimizerEntry\<close> and
  \<open>ValMonitor\<close> are the two further built-in entries the specification names;
  \<open>base.py\<close> creates neither.
\<close>

datatype 'c entry =
    OptimizerEntry
  | TrainLossMonitor
  | ValMonitor
  | UserCallback 'c
  | Logger

text \<open>
  The object \<open>self.callbacks\<close>, as far as \<open>fit_dataloader\<close> uses it: four aggregate
  hooks acting on the state \<open>'s\<close> of the run (network, optimizer, losses, log), two of
  which return a stop signal.
\<close>

record 's hooks =
  on_fit_start :: "'s \<Rightarrow> 's"
  before_step :: "'s \<Rightarrow> bool \<times> 's"
  on_batch_end :: "'s \<Rightarrow> 's"
  on_epoch_end :: "'s \<Rightarrow> bool \<times> 's"

text \<open>
  The operations of the network, the loss and the optimizer that the loop calls, on
  the same state, and the reading of \<open>self.log\<close> from it.
\<close>

record ('s, 'd, 'l) driver =
  zero_grad :: "'s \<Rightarrow> 's"
  compute_loss :: "'d \<Rightarrow> 's \<Rightarrow> 's"
  backward :: "'s \<Rightarrow> 's"
  optimizer_step :: "'s \<Rightarrow> 's"
  get_log :: "'s \<Rightarrow> 'l"

text \<open>
  The fields of the model that \<open>_setup_train_info\<close> assigns, and the rest of its state.
\<close>

record ('c, 's) model =
  callbacks :: "'c entry list"
  batches_per_epoch :: nat
  log_verbose :: bool
  run_state :: 's

text \<open>
  \<^verbatim>\<open>
  def _setup_train_info(self, dataloader, verbose, callbacks):
      self.fit_info = {'batches_per_epoch': len(dataloader)}
      self.log.verbose = verbose
      if callbacks is None:
          callbacks = []
      self.callbacks = cb.CallbacksList([self.train_loss] + callbacks + [self.log])
      self.callbacks.give_model(self)
  \<close>
  The registry is the list handed to \<open>CallbacksList\<close>.
\<close>

definition setup_train_info ::
  "'d list \<Rightarrow> bool \<Rightarrow> 'c list option \<Rightarrow> ('c, 's) model \<Rightarrow> ('c, 's) model" where
  "setup_train_info dataloader verbose cbs self =
     (let cbs' = (case cbs of None \<Rightarrow> [] | Some l \<Rightarrow> l)
      in self\<lparr> batches_per_epoch := length dataloader,
               log_verbose := verbose,
               callbacks := [TrainLossMonitor] @ map UserCallback cbs' @ [Logger] \<rparr>)"

text \<open>
  The body of the loop over the batches:
  \<^verbatim>\<open>
  self.optimizer.zero_grad()
  self.batch_loss = self.compute_loss(data)
  self.batch_loss.backward()
  stop_signal = self.callbacks.before_step()
  if stop_signal:
      raise RuntimeError('Stop signal in before_step().')
  self.optimizer.step()
  self.callbacks.on_batch_end()
  \<close>
  A raise carries the state it leaves behind.
\<close>

definition stop_msg :: string where
  "stop_msg = ''Stop signal in before_step().''"

definition gradients :: "('s, 'd, 'l) driver \<Rightarrow> 'd \<Rightarrow> 's \<Rightarrow> 's" where
  "gradients drv data s = backward drv (compute_loss drv data (zero_grad drv s))"

definition train_batch ::
  "('s, 'd, 'l) driver \<Rightarrow> 's hooks \<Rightarrow> 'd \<Rightarrow> 's \<Rightarrow> (error \<times> 's) + 's" where
  "train_batch drv cb data s =
     (case before_step cb (gradients drv data s) of
        (stop_signal, s') \<Rightarrow>
          if stop_signal then Inl (RuntimeError stop_msg, s')
          else Inr (on_batch_end cb (optimizer_step drv s')))"

text \<open>\<open>for data in dataloader: ...\<close>\<close>

fun train_batches ::
  "('s, 'd, 'l) driver \<Rightarrow> 's hooks \<Rightarrow> 'd list \<Rightarrow> 's \<Rightarrow> (error \<times> 's) + 's" where
  "train_batches drv cb [] s = Inr s"
| "train_batches drv cb (data # rest) s =
     (case train_batch drv cb data s of
        Inl e \<Rightarrow> Inl e
      | Inr s' \<Rightarrow> train_batches drv cb rest s')"

text \<open>
  \<^verbatim>\<open>
  for _ in range(epochs):
      for data in dataloader:
          ...
      stop_signal = self.callbacks.on_epoch_end()
      if stop_signal:
          break
  \<close>
  The dataloader yields the same batches in every epoch.
\<close>

fun fit_epochs ::
  "('s, 'd, 'l) driver \<Rightarrow> 's hooks \<Rightarrow> 'd list \<Rightarrow> nat \<Rightarrow> 's \<Rightarrow> (error \<times> 's) + 's" where
  "fit_epochs drv cb dataloader 0 s = Inr s"
| "fit_epochs drv cb dataloader (Suc n) s =
     (case train_batches drv cb dataloader s of
        Inl e \<Rightarrow> Inl e
      | Inr s' \<Rightarrow>
          (case on_epoch_end cb s' of
             (stop_signal, s'') \<Rightarrow>
               if stop_signal then Inr s'' else fit_epochs drv cb dataloader n s''))"

text \<open>
  \<^verbatim>\<open>
  def fit_dataloader(self, dataloader, epochs=1, callbacks=None, verbose=True):
      self._setup_train_info(dataloader, verbose, callbacks)
      self.callbacks.on_fit_start()
      for _ in range(epochs):
          ...
      return self.log
  \<close>
  The class \<open>CallbacksList\<close> is the parameter \<open>cbl\<close>: it turns the registry into the
  object with the aggregate hooks. \<open>range(epochs)\<close> is empty for \<open>epochs \<le> 0\<close>. The result
  is the returned log with the model as the run leaves it, or the raised error with the
  model at the raise.
\<close>

definition fit_dataloader ::
  "('c entry list \<Rightarrow> 's hooks) \<Rightarrow> ('s, 'd, 'l) driver \<Rightarrow> 'd list \<Rightarrow> int \<Rightarrow>
   'c list option \<Rightarrow> bool \<Rightarrow> ('c, 's) model \<Rightarrow>
   (error \<times> ('c, 's) model) + ('l \<times> ('c, 's) model)" where
  "fit_dataloader cbl drv dataloader epochs cbs verbose self =
     (let self' = setup_train_info dataloader verbose cbs self;
          cb = cbl (callbacks self');
          s0 = on_fit_start cb (run_state self')
      in case fit_epochs drv cb dataloader (nat epochs) s0 of
           Inl (e, s) \<Rightarrow> Inl (e, self'\<lparr>run_state := s\<rparr>)
         | Inr s \<Rightarrow> Inr (get_log drv s, self'\<lparr>run_state := s\<rparr>))"

text \<open>
  The epochs of a run that end without a stop signal: \<open>clean_epochs ... k s\<close> is the
  state after \<open>k\<close> whole epochs from the state \<open>s\<close>, when in none of them an aggregate
  \<open>before_step\<close> or \<open>on_epoch_end\<close> returned a stop signal, and \<open>None\<close> otherwise. It says
  where in a run a signal comes.
\<close>

fun clean_epochs ::
  "('s, 'd, 'l) driver \<Rightarrow> 's hooks \<Rightarrow> 'd list \<Rightarrow> nat \<Rightarrow> 's \<Rightarrow> 's option" where
  "clean_epochs drv cb dataloader 0 s = Some s"
| "clean_epochs drv cb dataloader (Suc k) s =
     (case train_batches drv cb dataloader s of
        Inl e \<Rightarrow> None
      | Inr s' \<Rightarrow>
          (case on_epoch_end cb s' of
             (stop_signal, s'') \<Rightarrow>
               if stop_signal then None else clean_epochs drv cb dataloader k s''))"

section \<open>The dispatcher CallbacksList\<close>

text \<open>
  Modelled from the spec: the hooks of the single entries of a registry, which the
  class \<open>CallbacksList\<close> of \<open>pyth/callbacks.py\<close> calls; that file is not among the
  sources. Every entry has the four lifecycle hooks (\<open>on_fit_start\<close>, \<open>before_step\<close> with
  a stop signal, \<open>on_batch_end\<close>, \<open>on_epoch_end\<close> with a stop signal), acting on the state
  of the run.
\<close>

record ('e, 's) handlers =
  h_on_fit_start :: "'e \<Rightarrow> 's \<Rightarrow> 's"
  h_before_step :: "'e \<Rightarrow> 's \<Rightarrow> bool \<times> 's"
  h_on_batch_end :: "'e \<Rightarrow> 's \<Rightarrow> 's"
  h_on_epoch_end :: "'e \<Rightarrow> 's \<Rightarrow> bool \<times> 's"

text \<open>
  Modelled from the spec: the aggregate of a hook without a result, missing with
  \<open>pyth/callbacks.py\<close>. The specification: the aggregate hooks mirror each entry's
  hooks, invoked in registry (insertion) order.
\<close>

fun dispatch :: "('e \<Rightarrow> 's \<Rightarrow> 's) \<Rightarrow> 'e list \<Rightarrow> 's \<Rightarrow> 's" where
  "dispatch hook [] s = s"
| "dispatch hook (e # es) s = dispatch hook es (hook e s)"

text \<open>
  Modelled from the spec: the aggregate of a hook with a stop signal, missing with
  \<open>pyth/callbacks.py\<close>. The specification: every entry's hook is invoked in registry
  (insertion) order, and if any entry's hook returns a truthy stop signal the aggregate
  call returns true.
\<close>

fun dispatch_signal :: "('e \<Rightarrow> 's \<Rightarrow> bool \<times> 's) \<Rightarrow> 'e list \<Rightarrow> 's \<Rightarrow> bool \<times> 's" where
  "dispatch_signal hook [] s = (False, s)"
| "dispatch_signal hook (e # es) s =
     (case hook e s of
        (stop, s') \<Rightarrow> (case dispatch_signal hook es s' of (stop', s'') \<Rightarrow> (stop \<or> stop', s'')))"

text \<open>
  Modelled from the spec: the class \<open>CallbacksList\<close> of \<open>pyth/callbacks.py\<close>, which
  \<open>base.py\<close> instantiates and which is not among the sources: the object with the four
  aggregate hooks over the registry it was constructed with.
\<close>

definition CallbacksList :: "('e, 's) handlers \<Rightarrow> 'e list \<Rightarrow> 's hooks" where
  "CallbacksList h registry =
     \<lparr> on_fit_start = dispatch (h_on_fit_start h) registry,
       before_step = dispatch_signal (h_before_step h) registry,
       on_batch_end = dispatch (h_on_batch_end h) registry,
       on_epoch_end = dispatch_signal (h_on_epoch_end h) registry \<rparr>"

text \<open>
  Instrumentation for stating orders of calls: the state of the run is the list of the
  events so far; every hook of every entry and every operation of the driver appends
  its own event. The entries in \<open>stop_at\<close> return a stop signal from \<open>before_step\<close>,
  the entries in \<open>end_at\<close> from \<open>on_epoch_end\<close>.
\<close>

datatype 'e event =
    FitStart 'e
  | BeforeStep 'e
  | BatchEnd 'e
  | EpochEnd 'e
  | ZeroGrad
  | ComputeLoss
  | Backward
  | OptimizerStep

definition tracing_handlers :: "'e list \<Rightarrow> 'e list \<Rightarrow> ('e, 'e event list) handlers" where
  "tracing_handlers stop_at end_at =
     \<lparr> h_on_fit_start = (\<lambda>e tr. tr @ [FitStart e]),
       h_before_step = (\<lambda>e tr. (e \<in> set stop_at, tr @ [BeforeStep e])),
       h_on_batch_end = (\<lambda>e tr. tr @ [BatchEnd e]),
       h_on_epoch_end = (\<lambda>e tr. (e \<in> set end_at, tr @ [EpochEnd e])) \<rparr>"

definition tracing_driver :: "('e event list, 'd, 'e event list) driver" where
  "tracing_driver =
     \<lparr> zero_grad = (\<lambda>tr. tr @ [ZeroGrad]),
       compute_loss = (\<lambda>d tr. tr @ [ComputeLoss]),
       backward = (\<lambda>tr. tr @ [Backward]),
       optimizer_step = (\<lambda>tr. tr @ [OptimizerStep]),
       get_log = (\<lambda>tr. tr) \<rparr>"

text \<open>
  Instrumented entries whose stop signals depend on the calls so far: an entry returns a
  stop signal from \<open>before_step\<close> when \<open>stop_when\<close> holds of it and the list of events,
  from \<open>on_epoch_end\<close> when \<open>end_when\<close> does. \<open>in_second_epoch\<close> holds of the user
  callback \<open>7\<close> once the logger has seen the end of an epoch; \<open>never\<close> holds of nothing.
\<close>

definition staged_handlers ::
  "('e \<Rightarrow> 'e event list \<Rightarrow> bool) \<Rightarrow> ('e \<Rightarrow> 'e event list \<Rightarrow> bool) \<Rightarrow>
   ('e, 'e event list) handlers" where
  "staged_handlers stop_when end_when =
     \<lparr> h_on_fit_start = (\<lambda>e tr. tr @ [FitStart e]),
       h_before_step = (\<lambda>e tr. (stop_when e tr, tr @ [BeforeStep e])),
       h_on_batch_end = (\<lambda>e tr. tr @ [BatchEnd e]),
       h_on_epoch_end = (\<lambda>e tr. (end_when e tr, tr @ [EpochEnd e])) \<rparr>"

definition in_second_epoch :: "nat entry \<Rightarrow> nat entry event list \<Rightarrow> bool" where
  "in_second_epoch e tr = (e = UserCallback 7 \<and> EpochEnd Logger \<in> set tr)"

definition never :: "nat entry \<Rightarrow> nat entry event list \<Rightarrow> bool" where
  "never e tr = False"

text \<open>
  The registry in the words of the specification: an optimizer-integration entry first,
  then the training-data monitor, then the validation monitor, then the user callbacks
  in the order given, and the logging entry last.
\<close>

definition spec_registry :: "'c list \<Rightarrow> 'c entry list" where
  "spec_registry cbs =
     [OptimizerEntry, TrainLossMonitor, ValMonitor] @ map UserCallback cbs @ [Logger]"

section \<open>The registry CallbackHandler\<close>

text \<open>
  Modelled from the spec: the content of a \<open>CallbackHandler\<close> of
  \<open>torchtuples/callbacks.py\<close>, of which only the tests are among the sources. The
  specification: an ordered mapping from unique names to handlers whose insertion order
  is preserved and observable; here the list of the (name, handler) pairs in insertion
  order.
\<close>

type_synonym 'h registry = "(string \<times> 'h) list"

text \<open>
  Modelled from the spec: the method \<open>keys\<close> of the missing class \<open>CallbackHandler\<close>,
  the names in insertion order (the tests read \<open>list(cbh.keys())\<close>).
\<close>

definition keys :: "'h registry \<Rightarrow> string list" where
  "keys reg = map fst reg"

text \<open>The decimal numeral of a number, for the suffixes.\<close>

fun digit_char :: "nat \<Rightarrow> char" where
  "digit_char n =
     (if n = 0 then CHR ''0'' else if n = 1 then CHR ''1'' else if n = 2 then CHR ''2''
      else if n = 3 then CHR ''3'' else if n = 4 then CHR ''4'' else if n = 5 then CHR ''5''
      else if n = 6 then CHR ''6'' else if n = 7 then CHR ''7'' else if n = 8 then CHR ''8''
      else CHR ''9'')"

fun decimal :: "nat \<Rightarrow> string" where
  "decimal n = (if n < 10 then [digit_char n] else decimal (n div 10) @ [digit_char (n mod 10)])"

text \<open>
  Modelled from the spec: the candidate names of the missing class \<open>CallbackHandler\<close>.
  The specification: a derived name is uniquified by suffixing \<open>_0\<close>, \<open>_1\<close>, ... on
  collision.
\<close>

definition suffixed :: "string \<Rightarrow> nat \<Rightarrow> string" where
  "suffixed base i = base @ ''_'' @ decimal i"

text \<open>
  Modelled from the spec: the search for the suffix, missing with \<open>CallbackHandler\<close>:
  the first of \<open>base_i, base_(i+1), ...\<close> that is no key, looking at \<open>fuel\<close> candidates.
\<close>

fun first_free :: "string list \<Rightarrow> string \<Rightarrow> nat \<Rightarrow> nat \<Rightarrow> string option" where
  "first_free ks base i 0 = None"
| "first_free ks base i (Suc fuel) =
     (if suffixed base i \<notin> set ks then Some (suffixed base i)
      else first_free ks base (Suc i) fuel)"

text \<open>
  Modelled from the spec: the derivation of a name, missing with \<open>CallbackHandler\<close>.
  The specification: inserting without a name auto-derives one from the handler's type
  name, uniquified by suffixing \<open>_0\<close>, \<open>_1\<close>, ... on collision. One more candidate than
  there are keys is enough to find a free one.
\<close>

definition make_name :: "string list \<Rightarrow> string \<Rightarrow> string" where
  "make_name ks base =
     (if base \<notin> set ks then base
      else case first_free ks base 0 (Suc (length ks)) of Some n \<Rightarrow> n | None \<Rightarrow> base)"

text \<open>
  Modelled from the spec: the message of the assertion error of the missing class
  \<open>CallbackHandler\<close>, as the tests read it: \<open>Duplicate name: foo\<close>.
\<close>

definition duplicate_msg :: "string \<Rightarrow> string" where
  "duplicate_msg name = ''Duplicate name: '' @ name"

text \<open>
  Modelled from the spec: the method \<open>append(handler, name=None)\<close> of the missing class
  \<open>CallbackHandler\<close>. The specification: it adds one entry; if the name is omitted it is
  derived and uniquified; it fails with an assertion-style error if an explicit name
  collides with an existing key. A handler is given with its type name; a failure
  carries the registry as it is left.
\<close>

definition append_handler ::
  "'h registry \<Rightarrow> string \<times> 'h \<Rightarrow> string option \<Rightarrow> (error \<times> 'h registry) + 'h registry" where
  "append_handler reg handler name =
     (let n = (case name of None \<Rightarrow> make_name (keys reg) (fst handler) | Some given \<Rightarrow> given)
      in if n \<in> set (keys reg) then Inl (AssertionError (duplicate_msg n), reg)
         else Inr (reg @ [(n, snd handler)]))"

text \<open>
  Modelled from the spec: mapping-style item assignment of the missing class
  \<open>CallbackHandler\<close>. The specification: the same duplicate-name rejection rule as
  \<open>append\<close>.
\<close>

definition setitem ::
  "'h registry \<Rightarrow> string \<Rightarrow> string \<times> 'h \<Rightarrow> (error \<times> 'h registry) + 'h registry" where
  "setitem reg name handler = append_handler reg handler (Some name)"

text \<open>
  Modelled from the spec: the insertion of a sequence of unnamed handlers, one after the
  other, for the constructor of the missing class \<open>CallbackHandler\<close>.
\<close>

fun append_all ::
  "'h registry \<Rightarrow> (string \<times> 'h) list \<Rightarrow> (error \<times> 'h registry) + 'h registry" where
  "append_all reg [] = Inr reg"
| "append_all reg (handler # rest) =
     (case append_handler reg handler None of
        Inl e \<Rightarrow> Inl e
      | Inr reg' \<Rightarrow> append_all reg' rest)"

text \<open>
  Modelled from the spec: the constructor of the missing class \<open>CallbackHandler\<close>, on a
  plain sequence of handlers. The specification: names are auto-derived from each
  handler's type name, uniquified on collision by appending \<open>_0\<close>, \<open>_1\<close>, ... for the
  second and subsequent occurrences of the same derived name.
\<close>

definition CallbackHandler :: "(string \<times> 'h) list \<Rightarrow> (error \<times> 'h registry) + 'h registry" where
  "CallbackHandler handlers = append_all [] handlers"

declare decimal.simps [simp del]

text \<open>A model before its first run, for concrete runs of the instrumented loop.\<close>

definition new_model :: "(nat, nat entry event list) model" where
  "new_model = \<lparr> callbacks = [], batches_per_epoch = 0, log_verbose = False, run_state = [] \<rparr>"

text \<open>
  The model set up for one batch per epoch and the user callback \<open>7\<close>, the events of
  one batch of the instrumented run, and the events up to the end of its first epoch.
\<close>

definition epoch_trace :: "nat entry event list" where
  "epoch_trace =
     [ZeroGrad, ComputeLoss, Backward, BeforeStep TrainLossMonitor,
      BeforeStep (UserCallback 7), BeforeStep Logger, OptimizerStep,
      BatchEnd TrainLossMonitor, BatchEnd (UserCallback 7), BatchEnd Logger]"

definition first_epoch_trace :: "nat entry event list" where
  "first_epoch_trace =
     [FitStart TrainLossMonitor, FitStart (UserCallback 7), FitStart Logger] @ epoch_trace @
     [EpochEnd TrainLossMonitor, EpochEnd (UserCallback 7), EpochEnd Logger]"

definition set_up_model :: "(nat, nat entry event list) model" where
  "set_up_model = setup_train_info [()] True (Some [7]) new_model"



section \<open>Properties of the nested container\<close>

subsection \<open>tuplefy\<close>

lemma tuplefy_default_again:
  "tuplefy (tuplefy x default_types) types = tuplefy x default_types"
  by (induction x arbitrary: types) (simp_all add: default_types_def)

text \<open>
  Claim C9. \<open>tuplefy\<close> is idempotent, for every value and every choice of the convertible
  sequence types: applying it a second time changes nothing. A value whose class is not
  one of the convertible ones (an opaque leaf, or a builtin sequence whose class was left
  out of \<open>types\<close>) is returned as it is.
\<close>

theorem tuplefy_idempotent:
  "tuplefy (tuplefy x types) types = tuplefy x types \<and>
   (\<not> type_in x (types @ [CTup]) \<longrightarrow> tuplefy x types = x)"
  by (cases x) (simp_all add: tuplefy_default_again)

theorem tuplefy_idempotent_witness:
  "tuplefy (tuplefy (PyList [PyTuple [Leaf (1::nat)], Leaf 2]) default_types) default_types
     = Tup [Tup [Leaf 1], Leaf 2] \<and>
   \<not> type_in (PyTuple [PyList [Leaf (1::nat)]]) ([CList] @ [CTup]) \<and>
   tuplefy (PyTuple [PyList [Leaf (1::nat)]]) [CList] = PyTuple [PyList [Leaf 1]]"
  using tuplefy_idempotent [of "PyList [PyTuple [Leaf (1::nat)], Leaf 2]" default_types]
        tuplefy_idempotent [of "PyTuple [PyList [Leaf (1::nat)]]" "[CList]"]
  by (simp add: default_types_def)

subsection \<open>flatten_tuple\<close>

lemma flatten_pass_flat:
  "list_all (\<lambda>x. \<not> in_containers x) xs \<Longrightarrow> flatten_pass xs = Tup xs"
  unfolding flatten_pass_def
  by (induction xs) (simp_all add: chain_part_def)

lemma flatten_tuple_flat: "is_flat x \<Longrightarrow> flatten_tuple x = x"
proof (cases "in_containers x")
  case False
  then show ?thesis by (simp add: flatten_tuple.simps)
next
  case True
  assume fl: "is_flat x"
  from True obtain xs where x: "x = Tup xs"
    by (cases x) (simp_all add: in_containers_def CONTAINERS_def)
  from fl True x have "flatten_pass xs = Tup xs"
    by (simp add: is_flat_def flatten_pass_flat)
  with fl x show ?thesis
    by (simp add: flatten_tuple.simps [of "Tup xs"])
qed

lemma flatten_tuple_is_flat: "is_flat (flatten_tuple x)"
proof (induction x rule: flatten_tuple.induct)
  case (1 data)
  show ?case
  proof (cases "in_containers data")
    case False
    then show ?thesis by (simp add: flatten_tuple.simps [of data] is_flat_def)
  next
    case True
    show ?thesis
    proof (cases "is_flat (flatten_pass (items data))")
      case flat: True
      with True show ?thesis by (simp add: flatten_tuple.simps [of data])
    next
      case nflat: False
      with True 1 have "is_flat (flatten_tuple (flatten_pass (items data)))" by simp
      with True nflat show ?thesis by (simp add: flatten_tuple.simps [of data])
    qed
  qed
qed

text \<open>
  Claim C8. \<open>flatten_tuple\<close> is a total function (its recursion ends because every pass
  that leaves a container behind removes at least one \<open>Tuple\<close> node, the measure \<open>tups\<close>
  of the termination proof above). Its result is flat, flattening it again returns the
  same value, and a value that is flat already is returned unchanged.
\<close>

theorem flatten_tuple_idempotent:
  "is_flat (flatten_tuple x) \<and>
   flatten_tuple (flatten_tuple x) = flatten_tuple x \<and>
   (is_flat x \<longrightarrow> flatten_tuple x = x)"
  by (simp add: flatten_tuple_is_flat flatten_tuple_flat)

theorem flatten_tuple_idempotent_witness:
  "flatten_tuple (Tup [Tup [Leaf 1, Tup [Leaf 2, Leaf 3]], Leaf (4::nat)])
     = Tup [Leaf 1, Leaf 2, Leaf 3, Leaf 4] \<and>
   is_flat (flatten_tuple (Tup [Tup [Leaf 1, Tup [Leaf 2, Leaf 3]], Leaf (4::nat)])) \<and>
   flatten_tuple (flatten_tuple (Tup [Tup [Leaf 1, Tup [Leaf 2, Leaf 3]], Leaf (4::nat)]))
     = flatten_tuple (Tup [Tup [Leaf 1, Tup [Leaf 2, Leaf 3]], Leaf (4::nat)]) \<and>
   is_flat (Tup [Leaf (1::nat), Leaf 2]) \<and>
   flatten_tuple (Tup [Leaf (1::nat), Leaf 2]) = Tup [Leaf 1, Leaf 2]"
  using flatten_tuple_idempotent [of "Tup [Tup [Leaf 1, Tup [Leaf 2, Leaf 3]], Leaf (4::nat)]"]
        flatten_tuple_idempotent [of "Tup [Leaf (1::nat), Leaf 2]"]
  by (simp add: flatten_tuple.simps flatten_pass_def chain_part_def is_flat_def
                in_containers_def CONTAINERS_def)

subsection \<open>reduce_tuple\<close>

lemma map_result_total: "map_result (\<lambda>x. Inr (g x)) xs = Inr (map g xs)"
  by (induction xs) simp_all

lemma map_result_Inl: "map_result f xs = Inl e \<Longrightarrow> \<exists>x \<in> set xs. f x = Inl e"
  by (induction xs) (auto split: sum.splits)

lemma list_all_zip_map_eq:
  assumes "length xs = length ys"
    and "\<And>x y. x \<in> set xs \<Longrightarrow> P (f x) (g y) \<longleftrightarrow> h x = k y"
  shows "list_all (\<lambda>(a, b). P a b) (zip (map f xs) (map g ys)) \<longleftrightarrow> map h xs = map k ys"
  using assms by (induction xs ys rule: list_induct2) simp_all

lemma py_eq_levels:
  "py_eq (tuple_levels x l) (tuple_levels y l) \<longleftrightarrow> topology_of x = topology_of y"
proof (induction x arbitrary: y l)
  case (Tup xs)
  show ?case
  proof (cases y)
    case (Tup ys)
    have "length xs = length ys \<Longrightarrow>
          list_all (\<lambda>(a, b). py_eq a b)
            (zip (map (\<lambda>sub. tuple_levels sub (l + 1)) xs) (map (\<lambda>sub. tuple_levels sub (l + 1)) ys))
          \<longleftrightarrow> map topology_of xs = map topology_of ys"
      by (rule list_all_zip_map_eq) (simp_all add: Tup.IH)
    then show ?thesis using Tup
      by (auto dest: map_eq_imp_length_eq)
  qed simp_all
qed (case_tac y; simp)+

lemma all_equal_levels: "all_equal (to_levels (Tup xs)) = Inr (same_topologies xs)"
proof (cases xs)
  case Nil
  then show ?thesis
    by (simp add: all_equal_def to_levels_def apply_nrec_def in_containers_def
                  CONTAINERS_def Tuple_all_def is_flat_def)
next
  case (Cons x rest)
  let ?ls = "map (\<lambda>sub. tuple_levels sub 0) xs"
  have "all_equal (to_levels (Tup xs)) =
        Tuple_all (Tup (map (\<lambda>v. Leaf (py_eq v (tuple_levels x 0))) ?ls))"
    using Cons
    by (simp add: all_equal_def to_levels_def apply_nrec_def in_containers_def
                  CONTAINERS_def map_result_total)
  also have "\<dots> = Inr (list_all (\<lambda>v. py_eq v (tuple_levels x 0)) ?ls)"
    by (simp add: Tuple_all_def is_flat_def in_containers_def CONTAINERS_def
                  list_all_iff)
  also have "list_all (\<lambda>v. py_eq v (tuple_levels x 0)) ?ls = same_topologies xs"
    using Cons by (simp add: list_all_iff py_eq_levels)
  finally show ?thesis .
qed


lemma apply_tuple_Inl: "apply_tuple g x = Inl e \<Longrightarrow> \<exists>y. g y = Inl e"
proof (induction x)
  case (Tup xs)
  from Tup.prems have "map_result (apply_tuple g) xs = Inl e"
    by (simp split: sum.splits)
  then obtain x where "x \<in> set xs" "apply_tuple g x = Inl e"
    by (blast dest: map_result_Inl)
  then show ?case by (rule Tup.IH)
qed auto

lemma reduce_rec_Inl:
  "reduce_rec it func acc v = Inl e \<Longrightarrow> e = TypeError \<or> (\<exists>a b. func a b = Inl e)"
proof (induction it func acc v rule: reduce_rec.induct)
  case (1 it func avs val)
  show ?case
  proof (cases "py_iter it val")
    case (Inl e')
    with "1.prems" have "e = TypeError"
      by (cases val) (auto split: option.splits)
    then show ?thesis by simp
  next
    case (Inr vs)
    with "1.prems" have "map_result (\<lambda>(av, v). reduce_rec it func av v) (zip avs vs) = Inl e"
      by (simp split: sum.splits)
    then obtain av v where "(av, v) \<in> set (zip avs vs)" "reduce_rec it func av v = Inl e"
      by (auto dest!: map_result_Inl)
    with Inr show ?thesis by (auto dest: "1.IH")
  qed
qed auto

lemma fold_result_Inl: "fold_result f xs acc = Inl e \<Longrightarrow> \<exists>a x. f a x = Inl e"
  by (induction xs arbitrary: acc) (auto split: sum.splits)

text \<open>
  Claim C6. \<open>reduce\<close> on a container whose top-level elements do not all have the
  topology of the first one raises the ValueError of the topology check, whatever
  \<open>func\<close> and \<open>init_func\<close> are (also when each of them raises on every call: the check
  comes before any call of them). When all top-level topologies are equal, that error
  is not raised, provided \<open>func\<close> and \<open>init_func\<close> do not raise it themselves.
\<close>

theorem reduce_tuple_validation:
  "(\<not> same_topologies xs \<longrightarrow>
      reduce_tuple it func init_func (Tup xs) = Inl (ValueError topology_msg)) \<and>
   (same_topologies xs \<and>
    (\<forall>a b. func a b \<noteq> Inl (ValueError topology_msg)) \<and>
    (\<forall>init a. init_func = Some init \<longrightarrow> init a \<noteq> Inl (ValueError topology_msg)) \<longrightarrow>
      reduce_tuple it func init_func (Tup xs) \<noteq> Inl (ValueError topology_msg))"
proof (intro conjI impI)
  assume "\<not> same_topologies xs"
  then show "reduce_tuple it func init_func (Tup xs) = Inl (ValueError topology_msg)"
    by (simp add: reduce_tuple_def in_containers_def CONTAINERS_def all_equal_levels)
next
  assume h: "same_topologies xs \<and>
    (\<forall>a b. func a b \<noteq> Inl (ValueError topology_msg)) \<and>
    (\<forall>init a. init_func = Some init \<longrightarrow> init a \<noteq> Inl (ValueError topology_msg))"
  have rr: "\<And>acc v. reduce_rec it func acc v \<noteq> Inl (ValueError topology_msg)"
    using h by (blast dest: reduce_rec_Inl)
  have fr: "\<And>ys acc. fold_result (reduce_rec it func) ys acc \<noteq> Inl (ValueError topology_msg)"
    using rr by (blast dest: fold_result_Inl)
  have ap: "\<And>init x. init_func = Some init \<Longrightarrow>
              Tuple_apply x init \<noteq> Inl (ValueError topology_msg)"
    using h by (auto simp: Tuple_apply_def dest: apply_tuple_Inl)
  show "reduce_tuple it func init_func (Tup xs) \<noteq> Inl (ValueError topology_msg)"
    using h fr ap
    by (auto simp: reduce_tuple_def in_containers_def CONTAINERS_def all_equal_levels
             simp del: fold_result.simps same_topologies.simps
             split: option.splits list.splits sum.splits)
qed

theorem reduce_tuple_validation_witness:
  "\<not> same_topologies [Tup [Leaf 1], Tup [Leaf 2, Leaf (3::int)]] \<and>
   reduce_tuple not_iterable raising_func None (Tup [Tup [Leaf 1], Tup [Leaf 2, Leaf 3]])
     = Inl (ValueError topology_msg) \<and>
   same_topologies [Tup [Leaf 1], Tup [Leaf (2::int)]] \<and>
   reduce_tuple not_iterable add_func (Some zero_init) (Tup [Tup [Leaf 1], Tup [Leaf 2]])
     \<noteq> Inl (ValueError topology_msg)"
proof -
  have f: "\<forall>a b. add_func a b \<noteq> Inl (ValueError topology_msg)"
  proof (intro allI)
    fix a b show "add_func a b \<noteq> Inl (ValueError topology_msg)"
      by (cases "(a, b)" rule: add_func.cases) simp_all
  qed
  have i: "\<forall>init a. Some zero_init = Some init \<longrightarrow> init a \<noteq> Inl (ValueError topology_msg)"
    by (simp add: zero_init_def)
  have d: "\<not> same_topologies [Tup [Leaf 1], Tup [Leaf 2, Leaf (3::int)]]" by simp
  have s: "same_topologies [Tup [Leaf 1], Tup [Leaf (2::int)]]" by simp
  from d s f i
    reduce_tuple_validation [of "[Tup [Leaf 1], Tup [Leaf 2, Leaf 3]]" not_iterable raising_func None]
    reduce_tuple_validation [of "[Tup [Leaf 1], Tup [Leaf 2]]" not_iterable add_func "Some zero_init"]
  show ?thesis by blast
qed

subsection \<open>agg_list and split_agg\<close>

lemma map_result_Inr_iff:
  "map_result f xs = Inr ys \<longleftrightarrow> list_all2 (\<lambda>x y. f x = Inr y) xs ys"
proof (induction xs arbitrary: ys)
  case Nil
  then show ?case by auto
next
  case (Cons x xs)
  show ?case
    by (cases "f x"; cases "map_result f xs"; cases ys)
       (auto simp: Cons.IH [symmetric])
qed

lemma map_result_nth:
  assumes "\<And>i. i < length xs \<Longrightarrow> f (xs ! i) = Inr (g i)"
  shows "map_result f xs = Inr (map g [0..<length xs])"
  using assms by (simp add: map_result_Inr_iff list_all2_conv_all_nth)

lemma agg_spec_Tup:
  "agg_spec (Tup cs) vs = Tup (map (\<lambda>i. agg_spec (cs ! i) (column i vs)) [0..<length cs])"
  by (auto intro!: nth_equalityI)

declare agg_spec.simps(1) [simp del]

lemma apply_init_agg_spec: "apply_tuple init_func_list x = Inr (agg_spec x [])"
proof (induction x)
  case (Tup cs)
  have "map_result (apply_tuple init_func_list) cs
        = Inr (map (\<lambda>i. agg_spec (cs ! i) []) [0..<length cs])"
    by (rule map_result_nth) (simp add: Tup.IH)
  then show ?case by (simp add: agg_spec_Tup column_def)
qed (simp_all add: init_func_list_def)

lemma reduce_rec_agg_spec:
  "topology_of v = topology_of x \<Longrightarrow>
   reduce_rec it append_func (agg_spec x us) v = Inr (agg_spec x (us @ [v]))"
proof (induction x arbitrary: us v)
  case (Tup cs)
  from Tup.prems obtain ws where v: "v = Tup ws" and tw: "map topology_of ws = map topology_of cs"
    by (cases v) simp_all
  from tw have len: "length ws = length cs" by (rule map_eq_imp_length_eq)
  let ?accs = "map (\<lambda>i. agg_spec (cs ! i) (column i us)) [0..<length cs]"
  have "map_result (\<lambda>(av, w). reduce_rec it append_func av w) (zip ?accs ws)
        = Inr (map (\<lambda>i. agg_spec (cs ! i) (column i (us @ [v]))) [0..<length (zip ?accs ws)])"
  proof (rule map_result_nth)
    fix i assume "i < length (zip ?accs ws)"
    with len have i: "i < length cs" by simp
    from tw i len have "topology_of (ws ! i) = topology_of (cs ! i)"
      by (metis nth_map)
    with i have "reduce_rec it append_func (agg_spec (cs ! i) (column i us)) (ws ! i)
                 = Inr (agg_spec (cs ! i) (column i us @ [ws ! i]))"
      by (intro Tup.IH) simp_all
    with i len v show "(case zip ?accs ws ! i of (av, w) \<Rightarrow> reduce_rec it append_func av w)
                 = Inr (agg_spec (cs ! i) (column i (us @ [v])))"
      by (simp add: column_def)
  qed
  with len v show ?case by (simp add: agg_spec_Tup)
qed (case_tac v; simp)+

lemma fold_agg_spec:
  "list_all (\<lambda>v. topology_of v = topology_of x) vs \<Longrightarrow>
   fold_result (reduce_rec it append_func) vs (agg_spec x us) = Inr (agg_spec x (us @ vs))"
  by (induction vs arbitrary: us) (simp_all add: reduce_rec_agg_spec)

lemma agg_list_agg_spec:
  "in_containers x \<Longrightarrow> same_topologies (x # xs) \<Longrightarrow>
   agg_list it (Tup (x # xs)) = Inr (agg_spec x (x # xs))"
  using fold_agg_spec [of x "x # xs" it "[]"]
  by (simp add: agg_list_def reduce_tuple_def in_containers_def CONTAINERS_def all_equal_levels
                Tuple_apply_def apply_init_agg_spec del: fold_result.simps)

lemma tuplefy_plain: "plain v \<Longrightarrow> tuplefy v types = v"
  by (induction v arbitrary: types) (simp_all add: list_all_iff map_idI)

lemma py_zip_rows:
  "cols \<noteq> [] \<Longrightarrow> \<forall>c \<in> set cols. length c = m \<Longrightarrow>
   py_zip cols = map (\<lambda>j. map (\<lambda>c. c ! j) cols) [0..<m]"
proof (induction cols rule: py_zip.induct)
  case 1
  then show ?case by simp
next
  case (2 xs)
  then show ?case by (auto intro!: nth_equalityI)
next
  case (3 xs ys yss)
  then have "py_zip (ys # yss) = map (\<lambda>j. map (\<lambda>c. c ! j) (ys # yss)) [0..<m]" by simp
  with "3.prems" show ?case by (auto intro!: nth_equalityI)
qed


lemma split_agg_agg_spec:
  "plain x \<Longrightarrow> no_empty x \<Longrightarrow>
   list_all (\<lambda>v. topology_of v = topology_of x \<and> plain v) vs \<Longrightarrow>
   split_agg it (agg_spec x vs) = Inr (if in_containers x then Tup vs else PyList vs)"
proof (induction x arbitrary: vs)
  case (Tup cs)
  let ?n = "length cs"
  let ?new = "\<lambda>i. if in_containers (cs ! i) then Tup (column i vs) else PyList (column i vs)"
  from Tup.prems have n_pos: "0 < ?n" by simp
  have shape: "\<exists>ws. v = Tup ws \<and> length ws = ?n \<and>
                 (\<forall>i<?n. topology_of (ws ! i) = topology_of (cs ! i) \<and> plain (ws ! i))"
    if "v \<in> set vs" for v
  proof -
    from that Tup.prems(3) have t: "topology_of v = topology_of (Tup cs)" and p: "plain v"
      by (simp_all add: list_all_iff)
    from t obtain ws where v: "v = Tup ws" and m: "map topology_of ws = map topology_of cs"
      by (cases v) simp_all
    from m have len: "length ws = ?n" by (rule map_eq_imp_length_eq)
    have "topology_of (ws ! i) = topology_of (cs ! i)" if "i < ?n" for i
      using m that len by (metis nth_map)
    moreover have "plain (ws ! i)" if "i < ?n" for i
      using p v that len by (simp add: list_all_length)
    ultimately show ?thesis using v len by blast
  qed
  have col: "list_all (\<lambda>v. topology_of v = topology_of (cs ! i) \<and> plain v) (column i vs)"
    if "i < ?n" for i
    using shape that by (fastforce simp: column_def list_all_iff)
  have sub: "split_agg it (agg_spec (cs ! i) (column i vs)) = Inr (?new i)" if "i < ?n" for i
  proof -
    from that have mem: "cs ! i \<in> set cs" by simp
    from Tup.prems that have "plain (cs ! i)" "no_empty (cs ! i)"
      by (simp_all add: list_all_length)
    with mem col [OF that] show ?thesis by (simp add: Tup.IH)
  qed
  have new: "map_result (split_agg it) (map (\<lambda>i. agg_spec (cs ! i) (column i vs)) [0..<?n])
             = Inr (map ?new [0..<?n])"
    using map_result_nth [of "map (\<lambda>i. agg_spec (cs ! i) (column i vs)) [0..<?n]"
                             "split_agg it" ?new]
    by (simp add: sub)
  have cols: "map_result (py_iter it) (map ?new [0..<?n])
              = Inr (map (\<lambda>i. column i vs) [0..<?n])"
    using map_result_nth [of "map ?new [0..<?n]" "py_iter it" "\<lambda>i. column i vs"]
    by simp
  have zipd: "py_zip (map (\<lambda>i. column i vs) [0..<?n])
              = map (\<lambda>j. map (\<lambda>c. c ! j) (map (\<lambda>i. column i vs) [0..<?n])) [0..<length vs]"
    using n_pos by (intro py_zip_rows) (auto simp: column_def)
  have row: "map (\<lambda>c. c ! j) (map (\<lambda>i. column i vs) [0..<?n]) = items (vs ! j)"
    if "j < length vs" for j
  proof -
    from that have "vs ! j \<in> set vs" by simp
    then obtain ws where "vs ! j = Tup ws" "length ws = ?n" using shape by blast
    with that show ?thesis
      by (auto simp: column_def intro!: nth_equalityI)
  qed
  have rows: "py_zip (map (\<lambda>i. column i vs) [0..<?n]) = map items vs"
  proof -
    have "map (\<lambda>j. map (\<lambda>c. c ! j) (map (\<lambda>i. column i vs) [0..<?n])) [0..<length vs]
          = map (\<lambda>j. items (vs ! j)) [0..<length vs]"
      by (rule map_cong [OF refl]) (simp only: row set_upt atLeastLessThan_iff)
    also have "\<dots> = map items vs"
      by (rule nth_equalityI) simp_all
    finally show ?thesis by (simp only: zipd)
  qed
  have retuple: "tuplefy (PyTuple (items v)) default_types = v" if "v \<in> set vs" for v
  proof -
    from that obtain ws where v: "v = Tup ws" using shape by blast
    from that Tup.prems(3) have "plain v" by (simp add: list_all_iff)
    with v have "list_all plain ws" by simp
    then have "map (\<lambda>sub. tuplefy sub default_types) ws = ws"
      by (simp add: list_all_iff map_idI tuplefy_plain)
    with v show ?thesis by (simp add: default_types_def)
  qed
  have "tuplefy (Tup (map PyTuple (map items vs))) default_types
        = Tup (map (\<lambda>v. tuplefy (PyTuple (items v)) default_types) vs)"
    by (simp add: comp_def del: tuplefy.simps(3))
  also have "map (\<lambda>v. tuplefy (PyTuple (items v)) default_types) vs = vs"
    by (rule map_idI) (rule retuple)
  finally have "tuplefy (Tup (map PyTuple (py_zip (map (\<lambda>i. column i vs) [0..<?n])))) default_types
        = Tup vs"
    by (simp only: rows)
  with new cols show ?case
    by (simp add: agg_spec_Tup in_containers_def CONTAINERS_def)
qed (simp_all add: in_containers_def CONTAINERS_def)


lemma agg_then_split_example:
  "agg_then_split not_iterable (Tup [Tup [Leaf 1, Tup []], Tup [Leaf 2, Tup []]]) = Inr (Tup [])"
  by (simp add: agg_then_split_def agg_list_def reduce_tuple_def in_containers_def
                CONTAINERS_def all_equal_def to_levels_def apply_nrec_def Tuple_all_def
                is_flat_def Tuple_apply_def init_func_list_def default_types_def)

text \<open>
  Claim C7, as stated, fails: two containers of the same topology that hold an empty
  container are aggregated into a value from which \<open>split_agg\<close> returns the empty
  \<open>Tuple\<close>, not the two containers.
\<close>

theorem agg_then_split_counterexample:
  "container_seq [Tup [Leaf 1, Tup []], Tup [Leaf 2, Tup []]] \<and>
   same_topologies [Tup [Leaf 1, Tup []], Tup [Leaf (2::int), Tup []]] \<and>
   agg_then_split not_iterable (Tup [Tup [Leaf 1, Tup []], Tup [Leaf 2, Tup []]])
     \<noteq> Inr (Tup [Tup [Leaf 1, Tup []], Tup [Leaf 2, Tup []]])"
  by (simp add: agg_then_split_example container_seq_def in_containers_def CONTAINERS_def)

text \<open>
  Claim C7, amended. For every non-empty sequence of containers (built from \<open>Tuple\<close>
  nodes and opaque leaves) that share the same topology and hold no empty container at
  any depth, \<open>agg_list\<close> returns a value and \<open>split_agg\<close> of it is the original
  sequence.
\<close>

theorem agg_then_split_identity:
  assumes "xs \<noteq> []" and "container_seq xs" and "list_all no_empty xs"
    and "same_topologies xs"
  shows "agg_then_split it (Tup xs) = Inr (Tup xs)"
proof -
  from assms(1) obtain x rest where xs: "xs = x # rest" by (cases xs) simp_all
  from assms(2) xs have c: "in_containers x" and p: "plain x"
    by (simp_all add: container_seq_def)
  from assms(3) xs have n: "no_empty x" by simp
  from assms(2,4) xs
  have vs: "list_all (\<lambda>v. topology_of v = topology_of x \<and> plain v) (x # rest)"
    by (simp add: container_seq_def list_all_iff)
  from c assms(4) xs have "agg_list it (Tup xs) = Inr (agg_spec x (x # rest))"
    by (simp add: agg_list_agg_spec del: same_topologies.simps)
  moreover from c split_agg_agg_spec [OF p n vs, of it]
  have "split_agg it (agg_spec x (x # rest)) = Inr (Tup (x # rest))"
    by simp
  ultimately show ?thesis using xs by (simp add: agg_then_split_def)
qed

theorem agg_then_split_identity_witness:
  "[Tup [Leaf 1, Tup [Leaf 2, Leaf 3]], Tup [Leaf 4, Tup [Leaf 5, Leaf (6::int)]]] \<noteq> [] \<and>
   container_seq [Tup [Leaf 1, Tup [Leaf 2, Leaf 3]], Tup [Leaf 4, Tup [Leaf 5, Leaf (6::int)]]] \<and>
   list_all no_empty [Tup [Leaf 1, Tup [Leaf 2, Leaf 3]], Tup [Leaf 4, Tup [Leaf 5, Leaf (6::int)]]] \<and>
   same_topologies [Tup [Leaf 1, Tup [Leaf 2, Leaf 3]], Tup [Leaf 4, Tup [Leaf 5, Leaf (6::int)]]] \<and>
   agg_list not_iterable (Tup [Tup [Leaf 1, Tup [Leaf 2, Leaf 3]], Tup [Leaf 4, Tup [Leaf 5, Leaf 6]]])
     = Inr (Tup [PyList [Leaf 1, Leaf 4], Tup [PyList [Leaf 2, Leaf 5], PyList [Leaf 3, Leaf 6]]]) \<and>
   agg_then_split not_iterable
       (Tup [Tup [Leaf 1, Tup [Leaf 2, Leaf 3]], Tup [Leaf 4, Tup [Leaf 5, Leaf 6]]])
     = Inr (Tup [Tup [Leaf 1, Tup [Leaf 2, Leaf 3]], Tup [Leaf 4, Tup [Leaf 5, Leaf 6]]])"
proof -
  let ?xs = "[Tup [Leaf 1, Tup [Leaf 2, Leaf 3]], Tup [Leaf 4, Tup [Leaf 5, Leaf (6::int)]]]"
  have h1: "?xs \<noteq> []" by simp
  have h2: "container_seq ?xs" by (simp add: container_seq_def in_containers_def CONTAINERS_def)
  have h3: "list_all no_empty ?xs" by simp
  have h4: "same_topologies ?xs" by simp
  have a: "agg_list not_iterable (Tup ?xs)
     = Inr (Tup [PyList [Leaf 1, Leaf 4], Tup [PyList [Leaf 2, Leaf 5], PyList [Leaf 3, Leaf 6]]])"
    by (simp add: agg_list_def reduce_tuple_def in_containers_def
                CONTAINERS_def all_equal_def to_levels_def apply_nrec_def Tuple_all_def
                is_flat_def Tuple_apply_def init_func_list_def)
  from h1 h2 h3 h4 a agg_then_split_identity [OF h1 h2 h3 h4, of not_iterable]
  show ?thesis by simp
qed

subsection \<open>The seed and the fold of reduce_tuple\<close>

lemma apply_lift1: "plain x \<Longrightarrow> apply_tuple (lift1 g) x = Inr (map_leaves g x)"
proof (induction x)
  case (Tup xs)
  then have "map_result (apply_tuple (lift1 g)) xs = Inr (map (map_leaves g) xs)"
    by (simp add: map_result_Inr_iff list_all2_conv_all_nth list_all_length)
  then show ?case by simp
qed simp_all

lemma plain_map_leaves: "plain x \<Longrightarrow> plain (map_leaves g x)"
  by (induction x) (simp_all add: list_all_iff)

lemma topology_map_leaves: "topology_of (map_leaves g x) = topology_of x"
  by (induction x) simp_all

lemma reduce_rec_combine:
  "plain acc \<Longrightarrow> plain v \<Longrightarrow> topology_of v = topology_of acc \<Longrightarrow>
   reduce_rec it (lift2 f) acc v = Inr (combine f acc v)"
proof (induction acc arbitrary: v)
  case (Leaf a)
  then show ?case by (cases v) simp_all
next
  case (Tup xs)
  from Tup.prems obtain ys where v: "v = Tup ys" and m: "map topology_of ys = map topology_of xs"
    by (cases v) simp_all
  from m have len: "length ys = length xs" by (rule map_eq_imp_length_eq)
  have "map_result (\<lambda>(av, w). reduce_rec it (lift2 f) av w) (zip xs ys)
        = Inr (map (\<lambda>(x, y). combine f x y) (zip xs ys))"
    unfolding map_result_Inr_iff list_all2_conv_all_nth
  proof (intro conjI allI impI)
    show "length (zip xs ys) = length (map (\<lambda>(x, y). combine f x y) (zip xs ys))" by simp
  next
    fix i assume "i < length (zip xs ys)"
    with len have i: "i < length xs" by simp
    from m i len have t: "topology_of (ys ! i) = topology_of (xs ! i)" by (metis nth_map)
    from Tup.prems(1) i have px: "plain (xs ! i)" by (simp add: list_all_length)
    from Tup.prems(2) v i len have py: "plain (ys ! i)" by (simp add: list_all_length)
    from i have "xs ! i \<in> set xs" by simp
    then have "reduce_rec it (lift2 f) (xs ! i) (ys ! i) = Inr (combine f (xs ! i) (ys ! i))"
      using px py t by (rule Tup.IH)
    with i len show "(case zip xs ys ! i of (av, w) \<Rightarrow> reduce_rec it (lift2 f) av w)
          = Inr (map (\<lambda>(x, y). combine f x y) (zip xs ys) ! i)"
      by simp
  qed
  with v show ?case by simp
qed simp_all

lemma plain_combine:
  "plain acc \<Longrightarrow> plain v \<Longrightarrow> topology_of v = topology_of acc \<Longrightarrow> plain (combine f acc v)"
proof (induction acc arbitrary: v)
  case (Leaf a)
  then show ?case by (cases v) simp_all
next
  case (Tup xs)
  from Tup.prems obtain ys where v: "v = Tup ys" and m: "map topology_of ys = map topology_of xs"
    by (cases v) simp_all
  from m have len: "length ys = length xs" by (rule map_eq_imp_length_eq)
  have "plain (combine f (xs ! i) (ys ! i))" if "i < length xs" for i
  proof -
    from m that len have t: "topology_of (ys ! i) = topology_of (xs ! i)" by (metis nth_map)
    from Tup.prems(1) that have px: "plain (xs ! i)" by (simp add: list_all_length)
    from Tup.prems(2) v that len have py: "plain (ys ! i)" by (simp add: list_all_length)
    from that have "xs ! i \<in> set xs" by simp
    then show ?thesis using px py t by (rule Tup.IH)
  qed
  with v len show ?case by (simp add: list_all_length)
qed simp_all

lemma topology_combine:
  "topology_of v = topology_of acc \<Longrightarrow> topology_of (combine f acc v) = topology_of acc"
proof (induction acc arbitrary: v)
  case (Leaf a)
  then show ?case by (cases v) simp_all
next
  case (Tup xs)
  from Tup.prems obtain ys where v: "v = Tup ys" and m: "map topology_of ys = map topology_of xs"
    by (cases v) simp_all
  from m have len: "length ys = length xs" by (rule map_eq_imp_length_eq)
  have "map (\<lambda>(x, y). topology_of (combine f x y)) (zip xs ys) = map topology_of xs"
  proof (rule nth_equalityI)
    show "length (map (\<lambda>(x, y). topology_of (combine f x y)) (zip xs ys)) = length (map topology_of xs)"
      using len by simp
  next
    fix i assume "i < length (map (\<lambda>(x, y). topology_of (combine f x y)) (zip xs ys))"
    with len have i: "i < length xs" by simp
    from m i len have t: "topology_of (ys ! i) = topology_of (xs ! i)" by (metis nth_map)
    from i have "xs ! i \<in> set xs" by simp
    then have "topology_of (combine f (xs ! i) (ys ! i)) = topology_of (xs ! i)"
      using t by (rule Tup.IH)
    with i len show "map (\<lambda>(x, y). topology_of (combine f x y)) (zip xs ys) ! i
                     = map topology_of xs ! i" by simp
  qed
  with v show ?case by (simp add: comp_def case_prod_unfold)
qed simp_all

lemma fold_result_combine:
  "plain acc \<Longrightarrow> list_all (\<lambda>v. plain v \<and> topology_of v = topology_of acc) vs \<Longrightarrow>
   fold_result (reduce_rec it (lift2 f)) vs acc = Inr (foldl (combine f) acc vs)"
proof (induction vs arbitrary: acc)
  case Nil
  then show ?case by simp
next
  case (Cons v vs)
  from Cons.prems have pv: "plain v" and tv: "topology_of v = topology_of acc"
    and rest: "list_all (\<lambda>w. plain w \<and> topology_of w = topology_of acc) vs"
    by simp_all
  from Cons.prems(1) pv tv have step: "reduce_rec it (lift2 f) acc v = Inr (combine f acc v)"
    by (rule reduce_rec_combine)
  from Cons.prems(1) pv tv have p': "plain (combine f acc v)" by (rule plain_combine)
  from tv have t': "topology_of (combine f acc v) = topology_of acc" by (rule topology_combine)
  from rest t' have "list_all (\<lambda>w. plain w \<and> topology_of w = topology_of (combine f acc v)) vs"
    by simp
  with p' have "fold_result (reduce_rec it (lift2 f)) vs (combine f acc v)
                = Inr (foldl (combine f) (combine f acc v) vs)"
    by (rule Cons.IH)
  with step show ?case by simp
qed


text \<open>
  Claim C10, as stated, fails: on a flat container, whose elements all have the
  topology of a leaf, \<open>reduce\<close> with an \<open>init_func\<close> raises AttributeError, because
  \<open>data[0].apply\<close> is a method of \<open>Tuple\<close> and the first element is a leaf. The claimed
  result, the fold of \<open>func\<close> over all three elements from the seed \<open>init_func(data[0])\<close>,
  would be \<open>6\<close>.
\<close>

theorem reduce_tuple_seed_counterexample:
  "same_topologies [Leaf 1, Leaf 2, Leaf (3::int)] \<and>
   reduce_tuple not_iterable add_func (Some zero_init) (Tup [Leaf 1, Leaf 2, Leaf 3])
     = Inl AttributeError \<and>
   apply_tuple zero_init (Leaf 1) = Inr (Leaf 0) \<and>
   fold_result (reduce_rec not_iterable add_func) [Leaf 1, Leaf 2, Leaf 3] (Leaf 0)
     = Inr (Leaf 6)"
  by (simp add: reduce_tuple_def in_containers_def CONTAINERS_def all_equal_levels
                Tuple_apply_def zero_init_def)

text \<open>
  Claim C10, amended. On a container of same-topology elements \<open>x, xs\<close>: without
  \<open>init_func\<close> the first element \<open>x\<close> itself is the seed and \<open>func\<close> is folded over the
  remaining elements \<open>xs\<close> only; with \<open>init_func\<close>, when the first element is itself a
  container, the seed is \<open>init_func\<close> applied leaf-wise to \<open>x\<close> and \<open>func\<close> is folded
  over all the elements, \<open>x\<close> included. For a reducer \<open>f\<close> and a seed function \<open>g\<close> on
  the leaves of containers of opaque leaves this is, at every leaf position, the left
  fold of \<open>f\<close> over the leaves of \<open>xs\<close> from the leaf of \<open>x\<close>, and the left fold of \<open>f\<close>
  over the leaves of \<open>x\<close> and \<open>xs\<close> from \<open>g\<close> of the leaf of \<open>x\<close>.
\<close>

theorem reduce_tuple_seed:
  "same_topologies (x # xs) \<Longrightarrow>
     reduce_tuple it func None (Tup (x # xs)) = fold_result (reduce_rec it func) xs x \<and>
     (in_containers x \<and> apply_tuple init x = Inr seed \<longrightarrow>
        reduce_tuple it func (Some init) (Tup (x # xs))
          = fold_result (reduce_rec it func) (x # xs) seed) \<and>
     (list_all plain (x # xs) \<longrightarrow>
        reduce_tuple it (lift2 f) None (Tup (x # xs)) = Inr (foldl (combine f) x xs)) \<and>
     (in_containers x \<and> list_all plain (x # xs) \<longrightarrow>
        reduce_tuple it (lift2 f) (Some (lift1 g)) (Tup (x # xs))
          = Inr (foldl (combine f) (map_leaves g x) (x # xs)))"
proof -
  assume same: "same_topologies (x # xs)"
  have none: "reduce_tuple it fn None (Tup (x # xs)) = fold_result (reduce_rec it fn) xs x"
    for fn
    using same
    by (simp add: reduce_tuple_def in_containers_def CONTAINERS_def all_equal_levels)
  have some: "reduce_tuple it fn (Some ini) (Tup (x # xs))
                = fold_result (reduce_rec it fn) (x # xs) sd"
    if "in_containers x" and "apply_tuple ini x = Inr sd" for fn ini sd
    using same that
    by (simp add: reduce_tuple_def in_containers_def CONTAINERS_def all_equal_levels
                  Tuple_apply_def del: fold_result.simps)
  have elementwise_none: "reduce_tuple it (lift2 f) None (Tup (x # xs)) = Inr (foldl (combine f) x xs)"
    if pl: "list_all plain (x # xs)"
  proof -
    from pl have px: "plain x" by simp
    from pl same have "list_all (\<lambda>v. plain v \<and> topology_of v = topology_of x) xs"
      by (simp add: list_all_iff)
    with px have "fold_result (reduce_rec it (lift2 f)) xs x = Inr (foldl (combine f) x xs)"
      by (rule fold_result_combine)
    then show ?thesis by (simp only: none)
  qed
  have elementwise_some: "reduce_tuple it (lift2 f) (Some (lift1 g)) (Tup (x # xs))
                = Inr (foldl (combine f) (map_leaves g x) (x # xs))"
    if c: "in_containers x" and pl: "list_all plain (x # xs)"
  proof -
    from pl have px: "plain x" by simp
    then have seed: "apply_tuple (lift1 g) x = Inr (map_leaves g x)" by (rule apply_lift1)
    from px have ps: "plain (map_leaves g x)" by (rule plain_map_leaves)
    from pl same
    have "list_all (\<lambda>v. plain v \<and> topology_of v = topology_of (map_leaves g x)) (x # xs)"
      by (simp add: list_all_iff topology_map_leaves)
    with ps have "fold_result (reduce_rec it (lift2 f)) (x # xs) (map_leaves g x)
                  = Inr (foldl (combine f) (map_leaves g x) (x # xs))"
      by (rule fold_result_combine)
    with some [OF c seed] show ?thesis by (simp only:)
  qed
  from none some elementwise_none elementwise_some show ?thesis by blast
qed

theorem reduce_tuple_seed_witness:
  "same_topologies [Tup [Leaf 1, Tup [Leaf 2, Leaf 3], Leaf 4],
                    Tup [Leaf 1, Tup [Leaf 2, Leaf 3], Leaf 4],
                    Tup [Leaf 1, Tup [Leaf 2, Leaf 3], Leaf (4::int)]] \<and>
   in_containers (Tup [Leaf 1, Tup [Leaf 2, Leaf 3], Leaf (4::int)]) \<and>
   list_all plain [Tup [Leaf 1, Tup [Leaf 2, Leaf 3], Leaf 4],
                   Tup [Leaf 1, Tup [Leaf 2, Leaf 3], Leaf 4],
                   Tup [Leaf 1, Tup [Leaf 2, Leaf 3], Leaf (4::int)]] \<and>
   apply_tuple ten_init (Tup [Leaf 1, Tup [Leaf 2, Leaf 3], Leaf 4])
     = Inr (Tup [Leaf 10, Tup [Leaf 10, Leaf 10], Leaf 10]) \<and>
   reduce_tuple not_iterable add_func None
     (Tup [Tup [Leaf 1, Tup [Leaf 2, Leaf 3], Leaf 4],
           Tup [Leaf 1, Tup [Leaf 2, Leaf 3], Leaf 4],
           Tup [Leaf 1, Tup [Leaf 2, Leaf 3], Leaf 4]])
     = Inr (Tup [Leaf 3, Tup [Leaf 6, Leaf 9], Leaf 12]) \<and>
   reduce_tuple not_iterable add_func (Some ten_init)
     (Tup [Tup [Leaf 1, Tup [Leaf 2, Leaf 3], Leaf 4],
           Tup [Leaf 1, Tup [Leaf 2, Leaf 3], Leaf 4],
           Tup [Leaf 1, Tup [Leaf 2, Leaf 3], Leaf 4]])
     = Inr (Tup [Leaf 13, Tup [Leaf 16, Leaf 19], Leaf 22]) \<and>
   reduce_tuple not_iterable (lift2 (-)) None
     (Tup [Tup [Leaf 1, Tup [Leaf 2, Leaf 3], Leaf 4],
           Tup [Leaf 1, Tup [Leaf 2, Leaf 3], Leaf 4],
           Tup [Leaf 1, Tup [Leaf 2, Leaf 3], Leaf 4]])
     = Inr (Tup [Leaf (- 1), Tup [Leaf (- 2), Leaf (- 3)], Leaf (- 4)]) \<and>
   reduce_tuple not_iterable (lift2 (-)) (Some (lift1 zero_leaf))
     (Tup [Tup [Leaf 1, Tup [Leaf 2, Leaf 3], Leaf 4],
           Tup [Leaf 1, Tup [Leaf 2, Leaf 3], Leaf 4],
           Tup [Leaf 1, Tup [Leaf 2, Leaf 3], Leaf 4]])
     = Inr (Tup [Leaf (- 3), Tup [Leaf (- 6), Leaf (- 9)], Leaf (- 12)])"
proof -
  let ?x = "Tup [Leaf 1, Tup [Leaf 2, Leaf 3], Leaf (4::int)]"
  have s: "same_topologies (?x # [?x, ?x])" by simp
  have c: "in_containers ?x" by (simp add: in_containers_def CONTAINERS_def)
  have p: "list_all plain (?x # [?x, ?x])" by simp
  have a: "apply_tuple ten_init ?x = Inr (Tup [Leaf 10, Tup [Leaf 10, Leaf 10], Leaf 10])"
    by (simp add: ten_init_def)
  note t = reduce_tuple_seed [OF s, where it = not_iterable and init = ten_init
             and seed = "Tup [Leaf 10, Tup [Leaf 10, Leaf 10], Leaf 10]"
             and func = add_func and f = "(-)" and g = zero_leaf]
  from t have r1: "reduce_tuple not_iterable add_func None (Tup (?x # [?x, ?x]))
                     = fold_result (reduce_rec not_iterable add_func) [?x, ?x] ?x"
    by (rule conjunct1)
  from t c a have r2: "reduce_tuple not_iterable add_func (Some ten_init) (Tup (?x # [?x, ?x]))
       = fold_result (reduce_rec not_iterable add_func) (?x # [?x, ?x])
           (Tup [Leaf 10, Tup [Leaf 10, Leaf 10], Leaf 10])"
    by blast
  from t p have r3: "reduce_tuple not_iterable (lift2 (-)) None (Tup (?x # [?x, ?x]))
                     = Inr (foldl (combine (-)) ?x [?x, ?x])"
    by blast
  from t c p have r4: "reduce_tuple not_iterable (lift2 (-)) (Some (lift1 zero_leaf))
                         (Tup (?x # [?x, ?x]))
                     = Inr (foldl (combine (-)) (map_leaves zero_leaf ?x) (?x # [?x, ?x]))"
    by blast
  have e1: "fold_result (reduce_rec not_iterable add_func) [?x, ?x] ?x
              = Inr (Tup [Leaf 3, Tup [Leaf 6, Leaf 9], Leaf 12])"
    by (simp add: not_iterable_def)
  have e2: "fold_result (reduce_rec not_iterable add_func) (?x # [?x, ?x])
              (Tup [Leaf 10, Tup [Leaf 10, Leaf 10], Leaf 10])
              = Inr (Tup [Leaf 13, Tup [Leaf 16, Leaf 19], Leaf 22])"
    by (simp add: not_iterable_def)
  have e3: "foldl (combine (-)) ?x [?x, ?x]
              = Tup [Leaf (- 1), Tup [Leaf (- 2), Leaf (- 3)], Leaf (- 4)]"
    by simp
  have e4: "foldl (combine (-)) (map_leaves zero_leaf ?x) (?x # [?x, ?x])
              = Tup [Leaf (- 3), Tup [Leaf (- 6), Leaf (- 9)], Leaf (- 12)]"
    by (simp add: zero_leaf_def)
  from s c p a r1 r2 r3 r4 e1 e2 e3 e4 show ?thesis by simp
qed

section \<open>Properties of astype and cat\<close>

lemma cat_dim_nonzero: "dim \<noteq> 0 \<Longrightarrow> cat L seq dim = Inl NotImplementedError"
  by (simp add: cat_def)

lemma Tuple_cat_any_dim: "Tuple_cat L self dim = cat L self 0"
  by (simp add: Tuple_cat_def)

lemma cat_example:
  "cat list_lib (Tup [Tup [Leaf (TorchTensor [1, 2])], Tup [Leaf (TorchTensor [3])]]) 0
     = Inr (Tup [Leaf (TorchTensor [1, 2, 3])])"
  by (simp add: cat_def shapes_of_def list_lib_def Tuple_apply_def in_containers_def
        CONTAINERS_def all_equal_def apply_nrec_def Tuple_all_def is_flat_def type_of_def
        types_of_def flatten_tuple.simps flatten_pass_def chain_part_def agg_list_def
        reduce_tuple_def to_levels_def init_func_list_def)

lemma cat_other_class:
  "cat list_lib (Tup [Tup [Leaf (ShapedObj ''Parameter'' [2])],
                      Tup [Leaf (ShapedObj ''Parameter'' [1])]]) 0
     = Inl (RuntimeError (cat_msg (Leaf (ClassType ''Parameter''))))"
  by (simp add: cat_def shapes_of_def list_lib_def Tuple_apply_def in_containers_def
        CONTAINERS_def all_equal_def apply_nrec_def Tuple_all_def is_flat_def type_of_def
        types_of_def flatten_tuple.simps flatten_pass_def chain_part_def agg_list_def
        reduce_tuple_def to_levels_def init_func_list_def)

text \<open>
  Claim C3 does not hold of the method \<open>Tuple.cat\<close>: called with \<open>dim = 1\<close> on two
  containers of one tensor each, it does not raise NotImplementedError but returns the
  concatenation along dimension 0, because it hands the literal \<open>0\<close> to the function
  \<open>cat\<close>. The function \<open>cat\<close> itself, called with \<open>dim = 1\<close>, raises.
\<close>

theorem Tuple_cat_dim_ignored:
  "Tuple_cat list_lib (Tup [Tup [Leaf (TorchTensor [1, 2])], Tup [Leaf (TorchTensor [3])]]) 1
     = Inr (Tup [Leaf (TorchTensor [1, 2, 3])]) \<and>
   cat list_lib (Tup [Tup [Leaf (TorchTensor [1, 2])], Tup [Leaf (TorchTensor [3])]]) 1
     = Inl NotImplementedError"
  by (simp add: Tuple_cat_def cat_example cat_dim_nonzero)

lemma astype_Inl:
  "astype L data dtype = Inl e \<Longrightarrow>
   (\<exists>t. tensor_type L t dtype = Inl e) \<or> (\<exists>n. ndarray_astype L n dtype = Inl e)"
proof -
  assume "astype L data dtype = Inl e"
  then obtain y where "astype_leaf L dtype y = Inl e"
    unfolding astype_def by (blast dest: apply_tuple_Inl)
  then show ?thesis
    by (auto simp: astype_leaf_def split: val.splits obj.splits sum.splits)
qed

text \<open>
  Claim C4 does not hold of \<open>astype\<close>: on a container with a leaf that is neither a
  tensor nor an array, the call raises nothing. It returns a container that holds a
  RuntimeError instance at the place of that leaf.
\<close>

theorem astype_returns_exception:
  "astype L (Tup [Leaf (OtherObj c)]) dtype
     = Inr (Tup [Leaf (ExcObj (RuntimeError (astype_msg (ClassType c))))])"
  by (simp add: astype_def astype_leaf_def)

theorem astype_returns_exception_witness:
  "astype list_lib (Tup [Leaf (OtherObj ''int'')]) ''float''
     = Inr (Tup [Leaf (ExcObj (RuntimeError (astype_msg (ClassType ''int''))))])"
  using astype_returns_exception [of list_lib "''int''" "''float''"] by simp

section \<open>Properties of the training loop\<close>

lemma dispatch_tracing_batch_end:
  "dispatch (h_on_batch_end (tracing_handlers stop_at end_at)) es tr = tr @ map BatchEnd es"
  by (induction es arbitrary: tr) (simp_all add: tracing_handlers_def)

lemma dispatch_tracing_before_step:
  "dispatch_signal (h_before_step (tracing_handlers stop_at end_at)) es tr
     = (list_ex (\<lambda>e. e \<in> set stop_at) es, tr @ map BeforeStep es)"
  by (induction es arbitrary: tr) (simp_all add: tracing_handlers_def)

text \<open>
  Claim C1, as stated, fails: set up without user callbacks, the registry is the
  training-loss monitor and the logger, not the four built-in entries of the
  specification.
\<close>

theorem setup_train_info_counterexample:
  "callbacks (setup_train_info [()] True None new_model) = [TrainLossMonitor, Logger] \<and>
   callbacks (setup_train_info [()] True None new_model) \<noteq> spec_registry []"
  by (simp add: setup_train_info_def spec_registry_def)

lemma train_batch_tracing:
  "train_batch tracing_driver (CallbacksList (tracing_handlers [] end_at) reg) data tr
     = Inr (tr @ [ZeroGrad, ComputeLoss, Backward] @ map BeforeStep reg
               @ [OptimizerStep] @ map BatchEnd reg)"
  by (simp add: train_batch_def CallbacksList_def gradients_def tracing_driver_def
                dispatch_tracing_batch_end dispatch_tracing_before_step list_ex_iff)

text \<open>
  Claim C1, amended. When a training run is set up, the callback registry holds the
  training-loss monitor first, then every user-supplied callback in the order given,
  and the logging entry last. In one batch every entry's \<open>before_step\<close> is called in
  exactly this order before the optimizer step, and every entry's \<open>on_batch_end\<close> in the
  same order after it (shown on the instrumented run, whose state is the list of calls).
\<close>

theorem setup_train_info_registry:
  "callbacks (setup_train_info dataloader verbose cbs self)
     = [TrainLossMonitor] @ map UserCallback (case cbs of None \<Rightarrow> [] | Some l \<Rightarrow> l) @ [Logger] \<and>
   train_batch tracing_driver
       (CallbacksList (tracing_handlers [] end_at)
          (callbacks (setup_train_info dataloader verbose cbs self))) data tr
     = Inr (tr @ [ZeroGrad, ComputeLoss, Backward]
               @ map BeforeStep (callbacks (setup_train_info dataloader verbose cbs self))
               @ [OptimizerStep]
               @ map BatchEnd (callbacks (setup_train_info dataloader verbose cbs self)))"
proof
  show "callbacks (setup_train_info dataloader verbose cbs self)
     = [TrainLossMonitor] @ map UserCallback (case cbs of None \<Rightarrow> [] | Some l \<Rightarrow> l) @ [Logger]"
    by (simp add: setup_train_info_def)
next
  show "train_batch tracing_driver
       (CallbacksList (tracing_handlers [] end_at)
          (callbacks (setup_train_info dataloader verbose cbs self))) data tr
     = Inr (tr @ [ZeroGrad, ComputeLoss, Backward]
               @ map BeforeStep (callbacks (setup_train_info dataloader verbose cbs self))
               @ [OptimizerStep]
               @ map BatchEnd (callbacks (setup_train_info dataloader verbose cbs self)))"
    by (rule train_batch_tracing)
qed

theorem setup_train_info_registry_witness:
  "callbacks (setup_train_info [(), ()] True (Some [7, 8]) new_model)
     = [TrainLossMonitor, UserCallback 7, UserCallback 8, Logger] \<and>
   train_batch tracing_driver
       (CallbacksList (tracing_handlers [] [])
          (callbacks (setup_train_info [(), ()] True (Some [7, 8]) new_model))) () []
     = Inr [ZeroGrad, ComputeLoss, Backward,
            BeforeStep TrainLossMonitor, BeforeStep (UserCallback 7),
            BeforeStep (UserCallback 8), BeforeStep Logger,
            OptimizerStep,
            BatchEnd TrainLossMonitor, BatchEnd (UserCallback 7),
            BatchEnd (UserCallback 8), BatchEnd Logger]"
  using setup_train_info_registry [of "[(), ()]" True "Some [7, 8]" new_model "[]" "()" "[]"]
  by (simp add: setup_train_info_def)

lemma train_batches_append:
  "train_batches drv cb (xs @ ys) s =
     (case train_batches drv cb xs s of Inl e \<Rightarrow> Inl e | Inr s' \<Rightarrow> train_batches drv cb ys s')"
  by (induction xs arbitrary: s) (simp_all split: sum.splits)

lemma train_batches_Inl:
  "train_batches drv cb ds s = Inl (e, s') \<Longrightarrow>
   e = RuntimeError stop_msg \<and> (\<exists>s0. before_step cb s0 = (True, s'))"
proof (induction ds arbitrary: s)
  case Nil
  then show ?case by simp
next
  case (Cons d ds)
  show ?case
  proof (cases "train_batch drv cb d s")
    case (Inl err)
    with Cons.prems have "train_batch drv cb d s = Inl (e, s')" by simp
    then show ?thesis
      by (auto simp: train_batch_def split: prod.splits if_splits)
  next
    case (Inr s1)
    with Cons.prems have "train_batches drv cb ds s1 = Inl (e, s')" by simp
    then show ?thesis by (rule Cons.IH)
  qed
qed

lemma fit_epochs_Inl:
  "fit_epochs drv cb dataloader n s = Inl (e, s') \<Longrightarrow>
   e = RuntimeError stop_msg \<and> (\<exists>s0. before_step cb s0 = (True, s'))"
proof (induction n arbitrary: s)
  case 0
  then show ?case by simp
next
  case (Suc n)
  show ?case
  proof (cases "train_batches drv cb dataloader s")
    case (Inl err)
    with Suc.prems have "train_batches drv cb dataloader s = Inl (e, s')" by simp
    then show ?thesis by (rule train_batches_Inl)
  next
    case (Inr s1)
    obtain stop s2 where oe: "on_epoch_end cb s1 = (stop, s2)" by (cases "on_epoch_end cb s1")
    with Inr Suc.prems have "fit_epochs drv cb dataloader n s2 = Inl (e, s')"
      by (simp split: if_splits)
    then show ?thesis by (rule Suc.IH)
  qed
qed

lemma fit_epochs_after_clean:
  "clean_epochs drv cb dataloader k s0 = Some s \<Longrightarrow>
   fit_epochs drv cb dataloader (k + n) s0 = fit_epochs drv cb dataloader n s"
proof (induction k arbitrary: s0)
  case 0
  then show ?case by simp
next
  case (Suc k)
  from Suc.prems obtain s1 where b: "train_batches drv cb dataloader s0 = Inr s1"
    by (cases "train_batches drv cb dataloader s0") simp_all
  obtain stop s2 where e: "on_epoch_end cb s1 = (stop, s2)" by (cases "on_epoch_end cb s1")
  from Suc.prems b e have ns: "\<not> stop" and c: "clean_epochs drv cb dataloader k s2 = Some s"
    by (simp_all split: if_splits)
  from c have "fit_epochs drv cb dataloader (k + n) s2 = fit_epochs drv cb dataloader n s"
    by (rule Suc.IH)
  with b e ns show ?case by simp
qed

lemma fit_epochs_before_step_stop:
  assumes "train_batches drv cb before s = Inr s1"
    and "before_step cb (gradients drv data s1) = (True, s2)"
  shows "fit_epochs drv cb (before @ data # rest) (Suc n) s = Inl (RuntimeError stop_msg, s2)"
  using assms by (simp add: train_batches_append train_batch_def)

lemma fit_epochs_on_epoch_end_stop:
  assumes "train_batches drv cb dataloader s = Inr s1"
    and "on_epoch_end cb s1 = (True, s2)"
  shows "fit_epochs drv cb dataloader (Suc n) s = Inr s2"
  using assms by simp

text \<open>
  Claim C2. Take any run of \<open>fit_dataloader\<close> and any of its epochs: \<open>k\<close> epochs have
  passed without a stop signal and at least one is left (\<open>k < epochs\<close>); \<open>s\<close> is the state
  at the start of the next one. When in that epoch the batches \<open>before\<close> have run and the
  aggregate \<open>before_step\<close> of the next batch returns a stop signal, \<open>fit_dataloader\<close>
  raises the RuntimeError, and the model is left in the state \<open>before_step\<close> returned:
  neither the optimizer step nor \<open>on_batch_end\<close> nor any later batch or epoch has run.
  When all the batches of that epoch have run and the aggregate \<open>on_epoch_end\<close> returns a
  stop signal, \<open>fit_dataloader\<close> raises nothing and returns the log, in the state
  \<open>on_epoch_end\<close> returned, whatever number of epochs is left.
\<close>

theorem fit_stop_signals:
  assumes "self' = setup_train_info dataloader verbose cbs self"
    and "cb = cbl (callbacks self')"
    and "clean_epochs drv cb dataloader k (on_fit_start cb (run_state self')) = Some s"
    and "k < nat epochs"
  shows "(dataloader = before @ data # rest \<and>
          train_batches drv cb before s = Inr s1 \<and>
          before_step cb (gradients drv data s1) = (True, s2) \<longrightarrow>
            fit_dataloader cbl drv dataloader epochs cbs verbose self
              = Inl (RuntimeError stop_msg, self'\<lparr>run_state := s2\<rparr>)) \<and>
         (train_batches drv cb dataloader s = Inr s1 \<and>
          on_epoch_end cb s1 = (True, s2) \<longrightarrow>
            fit_dataloader cbl drv dataloader epochs cbs verbose self
              = Inr (get_log drv s2, self'\<lparr>run_state := s2\<rparr>))"
proof -
  let ?s0 = "on_fit_start cb (run_state self')"
  from assms(4) obtain n where n: "nat epochs = k + Suc n"
    by (metis less_imp_Suc_add add_Suc_right)
  have run: "fit_epochs drv cb dataloader (nat epochs) ?s0 = fit_epochs drv cb dataloader (Suc n) s"
    unfolding n by (rule fit_epochs_after_clean [OF assms(3)])
  have fit: "fit_dataloader cbl drv dataloader epochs cbs verbose self =
     (case fit_epochs drv cb dataloader (Suc n) s of
        Inl (e, s') \<Rightarrow> Inl (e, self'\<lparr>run_state := s'\<rparr>)
      | Inr s' \<Rightarrow> Inr (get_log drv s', self'\<lparr>run_state := s'\<rparr>))"
    unfolding fit_dataloader_def Let_def assms(1) [symmetric] assms(2) [symmetric] run ..
  show ?thesis
  proof (intro conjI impI)
    assume h: "dataloader = before @ data # rest \<and>
          train_batches drv cb before s = Inr s1 \<and>
          before_step cb (gradients drv data s1) = (True, s2)"
    then have "fit_epochs drv cb dataloader (Suc n) s = Inl (RuntimeError stop_msg, s2)"
      using fit_epochs_before_step_stop [of drv cb before s s1 data s2 rest n] by simp
    with fit show "fit_dataloader cbl drv dataloader epochs cbs verbose self
              = Inl (RuntimeError stop_msg, self'\<lparr>run_state := s2\<rparr>)"
      by simp
  next
    assume h: "train_batches drv cb dataloader s = Inr s1 \<and> on_epoch_end cb s1 = (True, s2)"
    then have "fit_epochs drv cb dataloader (Suc n) s = Inr s2"
      using fit_epochs_on_epoch_end_stop [of drv cb dataloader s s1 s2 n] by simp
    with fit show "fit_dataloader cbl drv dataloader epochs cbs verbose self
              = Inr (get_log drv s2, self'\<lparr>run_state := s2\<rparr>)"
      by simp
  qed
qed


theorem fit_stop_signals_witness:
  "clean_epochs tracing_driver
      (CallbacksList (staged_handlers in_second_epoch never) (callbacks set_up_model)) [()] 1
      (on_fit_start (CallbacksList (staged_handlers in_second_epoch never) (callbacks set_up_model))
         (run_state set_up_model))
     = Some first_epoch_trace \<and>
   fit_dataloader (CallbacksList (staged_handlers in_second_epoch never)) tracing_driver
      [()] 3 (Some [7]) True new_model
     = Inl (RuntimeError stop_msg,
            set_up_model\<lparr>run_state := first_epoch_trace @
               [ZeroGrad, ComputeLoss, Backward, BeforeStep TrainLossMonitor,
                BeforeStep (UserCallback 7), BeforeStep Logger]\<rparr>) \<and>
   clean_epochs tracing_driver
      (CallbacksList (staged_handlers never in_second_epoch) (callbacks set_up_model)) [()] 1
      (on_fit_start (CallbacksList (staged_handlers never in_second_epoch) (callbacks set_up_model))
         (run_state set_up_model))
     = Some first_epoch_trace \<and>
   fit_dataloader (CallbacksList (staged_handlers never in_second_epoch)) tracing_driver
      [()] 3 (Some [7]) True new_model
     = Inr (first_epoch_trace @ epoch_trace @
              [EpochEnd TrainLossMonitor, EpochEnd (UserCallback 7), EpochEnd Logger],
            set_up_model\<lparr>run_state := first_epoch_trace @ epoch_trace @
              [EpochEnd TrainLossMonitor, EpochEnd (UserCallback 7), EpochEnd Logger]\<rparr>)"
proof -
  let ?A = "CallbacksList (staged_handlers in_second_epoch never) (callbacks set_up_model)"
  let ?B = "CallbacksList (staged_handlers never in_second_epoch) (callbacks set_up_model)"
  let ?t1 = "first_epoch_trace @
               [ZeroGrad, ComputeLoss, Backward, BeforeStep TrainLossMonitor,
                BeforeStep (UserCallback 7), BeforeStep Logger]"
  let ?t2 = "first_epoch_trace @ epoch_trace"
  let ?t3 = "first_epoch_trace @ epoch_trace @
              [EpochEnd TrainLossMonitor, EpochEnd (UserCallback 7), EpochEnd Logger]"
  have reg: "callbacks set_up_model = [TrainLossMonitor, UserCallback 7, Logger]"
    and st: "run_state set_up_model = []"
    by (simp_all add: set_up_model_def setup_train_info_def new_model_def)
  have cA: "clean_epochs tracing_driver ?A [()] 1 (on_fit_start ?A (run_state set_up_model))
              = Some first_epoch_trace"
    by (simp add: reg st CallbacksList_def staged_handlers_def tracing_driver_def
          train_batch_def gradients_def in_second_epoch_def never_def
          first_epoch_trace_def epoch_trace_def)
  have cB: "clean_epochs tracing_driver ?B [()] 1 (on_fit_start ?B (run_state set_up_model))
              = Some first_epoch_trace"
    by (simp add: reg st CallbacksList_def staged_handlers_def tracing_driver_def
          train_batch_def gradients_def in_second_epoch_def never_def
          first_epoch_trace_def epoch_trace_def)
  have k: "1 < nat 3" by simp
  have a1: "[()] = [] @ () # []" by simp
  have a2: "train_batches tracing_driver ?A [] first_epoch_trace = Inr first_epoch_trace"
    by simp
  have a3: "before_step ?A (gradients tracing_driver () first_epoch_trace) = (True, ?t1)"
    by (simp add: reg CallbacksList_def staged_handlers_def tracing_driver_def
          gradients_def in_second_epoch_def first_epoch_trace_def epoch_trace_def)
  have b1: "train_batches tracing_driver ?B [()] first_epoch_trace = Inr ?t2"
    by (simp add: reg CallbacksList_def staged_handlers_def tracing_driver_def
          train_batch_def gradients_def never_def first_epoch_trace_def epoch_trace_def)
  have b2: "on_epoch_end ?B ?t2 = (True, ?t3)"
    by (simp add: reg CallbacksList_def staged_handlers_def in_second_epoch_def
          never_def first_epoch_trace_def epoch_trace_def)
  have rA: "fit_dataloader (CallbacksList (staged_handlers in_second_epoch never)) tracing_driver
              [()] 3 (Some [7]) True new_model
            = Inl (RuntimeError stop_msg, set_up_model\<lparr>run_state := ?t1\<rparr>)"
    by (rule mp [OF
      fit_stop_signals [where self' = set_up_model and dataloader = "[()]" and verbose = True
        and cbs = "Some [7]" and self = new_model
        and cbl = "CallbacksList (staged_handlers in_second_epoch never)" and cb = ?A
        and drv = tracing_driver and k = 1 and s = first_epoch_trace and epochs = 3
        and before = "[]" and data = "()" and rest = "[]" and ?s1.0 = first_epoch_trace
        and ?s2.0 = ?t1,
        OF set_up_model_def refl cA k, THEN conjunct1]
      conjI [OF a1 conjI [OF a2 a3]]])
  have rB: "fit_dataloader (CallbacksList (staged_handlers never in_second_epoch)) tracing_driver
              [()] 3 (Some [7]) True new_model
            = Inr (get_log (tracing_driver :: (nat entry event list, unit, nat entry event list) driver) ?t3,
                   set_up_model\<lparr>run_state := ?t3\<rparr>)"
    by (rule mp [OF
      fit_stop_signals [where self' = set_up_model and dataloader = "[()]" and verbose = True
        and cbs = "Some [7]" and self = new_model
        and cbl = "CallbacksList (staged_handlers never in_second_epoch)" and cb = ?B
        and drv = tracing_driver and k = 1 and s = first_epoch_trace and epochs = 3
        and ?s1.0 = ?t2 and ?s2.0 = ?t3,
        OF set_up_model_def refl cB k, THEN conjunct2]
      conjI [OF b1 b2]])
  have lg: "get_log (tracing_driver :: (nat entry event list, unit, nat entry event list) driver) ?t3 = ?t3"
    by (simp add: tracing_driver_def)
  from cA cB rA rB lg show ?thesis by simp
qed


lemma fit_dataloader_abort_example:
  "fit_dataloader (CallbacksList (tracing_handlers [UserCallback 7] [])) tracing_driver
     [(), ()] 3 (Some [7]) True new_model
   = Inl (RuntimeError stop_msg,
          \<lparr> callbacks = [TrainLossMonitor, UserCallback 7, Logger],
            batches_per_epoch = 2, log_verbose = True,
            run_state = [FitStart TrainLossMonitor, FitStart (UserCallback 7), FitStart Logger,
                         ZeroGrad, ComputeLoss, Backward, BeforeStep TrainLossMonitor,
                         BeforeStep (UserCallback 7), BeforeStep Logger] \<rparr>)"
  by (simp add: fit_dataloader_def setup_train_info_def new_model_def CallbacksList_def
                tracing_handlers_def tracing_driver_def train_batch_def gradients_def
                eval_nat_numeral)

section \<open>Properties of the registry\<close>

lemma digit_char_inj: "a < 10 \<Longrightarrow> b < 10 \<Longrightarrow> digit_char a = digit_char b \<Longrightarrow> a = b"
  by (simp split: if_splits) arith

lemma decimal_nonempty: "decimal n \<noteq> []"
  by (subst decimal.simps) simp

lemma decimal_inj: "decimal n = decimal m \<Longrightarrow> n = m"
proof (induction n arbitrary: m rule: decimal.induct)
  case (1 n)
  show ?case
  proof (cases "n < 10")
    case True
    with "1.prems" have "[digit_char n] = decimal m" by (simp add: decimal.simps [of n])
    then have m: "m < 10" and "digit_char n = digit_char m"
      using decimal_nonempty [of "m div 10"]
      by (auto simp: decimal.simps [of m] split: if_splits)
    with True show ?thesis by (simp only: digit_char_inj)
  next
    case False
    with "1.prems" have e: "decimal (n div 10) @ [digit_char (n mod 10)] = decimal m"
      by (simp add: decimal.simps [of n])
    have m: "\<not> m < 10"
    proof
      assume "m < 10"
      with e have "decimal (n div 10) @ [digit_char (n mod 10)] = [digit_char m]"
        by (simp add: decimal.simps [of m])
      with decimal_nonempty [of "n div 10"] show False by simp
    qed
    with e have "decimal (n div 10) = decimal (m div 10)"
      and d: "digit_char (n mod 10) = digit_char (m mod 10)"
      by (simp_all add: decimal.simps [of m])
    with False "1.IH" have q: "n div 10 = m div 10" by simp
    from d have "n mod 10 = m mod 10" by (intro digit_char_inj) simp_all
    with q show ?thesis by (metis div_mult_mod_eq)
  qed
qed

lemma suffixed_inj: "suffixed base i = suffixed base j \<Longrightarrow> i = j"
  by (simp add: suffixed_def decimal_inj)

lemma first_free_None:
  "first_free ks base i fuel = None \<Longrightarrow> suffixed base ` {i..<i + fuel} \<subseteq> set ks"
proof (induction fuel arbitrary: i)
  case 0
  then show ?case by simp
next
  case (Suc fuel)
  from Suc.prems have here: "suffixed base i \<in> set ks"
    and rest: "first_free ks base (Suc i) fuel = None"
    by (simp_all split: if_splits)
  from rest have "suffixed base ` {Suc i..<Suc i + fuel} \<subseteq> set ks" by (rule Suc.IH)
  moreover have "{i..<i + Suc fuel} = insert i {Suc i..<Suc i + fuel}" by auto
  ultimately show ?case using here by simp
qed

lemma first_free_found: "first_free ks base 0 (Suc (length ks)) \<noteq> None"
proof
  assume "first_free ks base 0 (Suc (length ks)) = None"
  then have sub: "suffixed base ` {0..<0 + Suc (length ks)} \<subseteq> set ks"
    by (rule first_free_None)
  have "inj_on (suffixed base) {0..<0 + Suc (length ks)}"
    by (rule inj_onI) (rule suffixed_inj)
  then have "card (suffixed base ` {0..<0 + Suc (length ks)}) = Suc (length ks)"
    by (simp add: card_image)
  moreover from sub have "card (suffixed base ` {0..<0 + Suc (length ks)}) \<le> card (set ks)"
    by (intro card_mono) simp_all
  moreover have "card (set ks) \<le> length ks" by (rule card_length)
  ultimately show False by simp
qed

lemma make_name_fresh: "make_name ks base \<notin> set ks"
proof (cases "base \<in> set ks")
  case False
  then show ?thesis by (simp add: make_name_def)
next
  case True
  from first_free_found [of ks base] obtain n
    where n: "first_free ks base 0 (Suc (length ks)) = Some n" by blast
  have "first_free ks base i fuel = Some n \<Longrightarrow> n \<notin> set ks" for i fuel
    by (induction fuel arbitrary: i) (auto split: if_splits)
  with n have "n \<notin> set ks" by blast
  with n True show ?thesis by (simp add: make_name_def del: first_free.simps)
qed

lemma append_handler_unnamed:
  "append_handler reg handler None = Inr (reg @ [(make_name (keys reg) (fst handler), snd handler)])"
  by (simp add: append_handler_def make_name_fresh)

lemma decimal_0: "decimal 0 = ''0''"
  by (simp add: decimal.simps)

text \<open>
  Claim C5. A registry constructed from two unnamed handlers of the same type \<open>T\<close> has
  the two distinct names \<open>T\<close> and \<open>T_0\<close>, in insertion order. Appending or item-assigning
  a handler under a name that is a key of the registry fails with the assertion error
  whose message is \<open>Duplicate name: \<close> followed by that name, and the registry is left
  as it was.
\<close>

theorem CallbackHandler_naming:
  "CallbackHandler [(T, h1), (T, h2)] = Inr [(T, h1), (T @ ''_0'', h2)] \<and>
   keys [(T, h1), (T @ ''_0'', h2)] = [T, T @ ''_0''] \<and>
   T \<noteq> T @ ''_0'' \<and>
   (name \<in> set (keys reg) \<longrightarrow>
      append_handler reg handler (Some name) = Inl (AssertionError (duplicate_msg name), reg) \<and>
      setitem reg name handler = Inl (AssertionError (duplicate_msg name), reg))"
  by (simp add: CallbackHandler_def append_handler_def make_name_def keys_def suffixed_def
                decimal_0 setitem_def)


theorem CallbackHandler_naming_witness:
  "CallbackHandler [(''Callback'', 1), (''Callback'', 2::nat)]
     = Inr [(''Callback'', 1), (''Callback_0'', 2)] \<and>
   ''foo'' \<in> set (keys [(''foo'', 1), (''bar'', 2::nat)]) \<and>
   append_handler [(''foo'', 1), (''bar'', 2::nat)] (''Callback'', 3) (Some ''foo'')
     = Inl (AssertionError ''Duplicate name: foo'', [(''foo'', 1), (''bar'', 2)]) \<and>
   setitem [(''foo'', 1), (''bar'', 2::nat)] ''bar'' (''Callback'', 3)
     = Inl (AssertionError ''Duplicate name: bar'', [(''foo'', 1), (''bar'', 2)])"
proof -
  have k1: "''foo'' \<in> set (keys [(''foo'', 1), (''bar'', 2::nat)])" by (simp add: keys_def)
  have k2: "''bar'' \<in> set (keys [(''foo'', 1), (''bar'', 2::nat)])" by (simp add: keys_def)
  note n1 = CallbackHandler_naming [where T = "''Callback''" and ?h1.0 = "1::nat" and ?h2.0 = 2
        and name = "''foo''" and reg = "[(''foo'', 1::nat), (''bar'', 2)]"
        and handler = "(''Callback'', 3::nat)"]
  note n2 = CallbackHandler_naming [where T = "''Callback''" and ?h1.0 = "1::nat" and ?h2.0 = 2
        and name = "''bar''" and reg = "[(''foo'', 1::nat), (''bar'', 2)]"
        and handler = "(''Callback'', 3::nat)"]
  from n1 have c: "CallbackHandler [(''Callback'', 1), (''Callback'', 2::nat)]
     = Inr [(''Callback'', 1), (''Callback_0'', 2)]" by simp
  from n1 k1 have a: "append_handler [(''foo'', 1), (''bar'', 2::nat)] (''Callback'', 3) (Some ''foo'')
     = Inl (AssertionError (duplicate_msg ''foo''), [(''foo'', 1), (''bar'', 2)])" by blast
  from n2 k2 have s: "setitem [(''foo'', 1), (''bar'', 2::nat)] ''bar'' (''Callback'', 3)
     = Inl (AssertionError (duplicate_msg ''bar''), [(''foo'', 1), (''bar'', 2)])" by blast
  from c k1 a s show ?thesis by (simp add: duplicate_msg_def)
qed

end
